theory Spec2Isabelle
  imports Main "HOL-Library.Multiset" "HOL-Library.Sublist" "HOL-Library.Word"
begin

section \<open>Data model of main.go\<close>

text \<open>
  A Go \<open>error\<close> value is represented by the text its \<open>Error()\<close> method returns.
\<close>

datatype error = Error (errorText: string)

text \<open>
  \<open>type Problem struct\<close>. The two \<open>int\<close> fields are never computed with (the rating is only
  compared), so they are unbounded integers here. The \<open>float64\<close> field is carried as its
  64-bit pattern: the program never does arithmetic on it. A slice is a list; a nil slice
  and an empty one are both the empty list.
\<close>

record Problem =
  ContestID :: int
  ProblemSetName :: string
  Index :: string
  Name :: string
  Type :: string
  Points :: "64 word"
  Rating :: int
  Tags :: "string list"

text \<open>\<open>type CodeforcesResponse struct\<close>, with its anonymous inner struct \<open>Result\<close>.\<close>

record Result =
  Problems :: "Problem list"

record CodeforcesResponse =
  Status :: string
  Result :: Result

text \<open>
  What \<open>http.Get\<close> hands back when the transport succeeds: the status code, and what
  \<open>io.ReadAll\<close> will obtain from the body (the bytes, or a read error).
\<close>

record Response =
  StatusCode :: int
  Body :: "error + string"

definition io_ReadAll :: "error + string \<Rightarrow> error + string" where
  "io_ReadAll b = b"

text \<open>
  The library calls whose outcome the program does not control are the fields of an
  environment: the network as seen through \<open>http.Get\<close> (URL to outcome), the decoder
  \<open>json.Unmarshal\<close> at type \<open>CodeforcesResponse\<close>, \<open>sort.Slice\<close> (given the \<open>less\<close>
  closure as a relation on elements) and the encoder at type \<open>[]Problem\<close>.
\<close>

record Env =
  http_Get :: "string \<Rightarrow> error + Response"
  json_Unmarshal :: "string \<Rightarrow> error + CodeforcesResponse"
  sort_Slice :: "(Problem \<Rightarrow> Problem \<Rightarrow> bool) \<Rightarrow> Problem list \<Rightarrow> Problem list"
  json_Marshal :: "Problem list \<Rightarrow> error + string"

text \<open>
  A computation that talks to the upstream returns its value together with the list of
  URLs it requested, in order.
\<close>

type_synonym 'a upstream = "'a \<times> string list"

section \<open>Constants\<close>

definition CODEFORCES_BASE_URL :: string where
  "CODEFORCES_BASE_URL = ''https://codeforces.com/api/''"

definition PROBLEMSET_METHOD :: string where
  "PROBLEMSET_METHOD = ''problemset.problems''"

definition StatusOK :: int where
  "StatusOK = 200"

definition StatusInternalServerError :: int where
  "StatusInternalServerError = 500"

section \<open>Library functions with a fixed meaning\<close>

text \<open>
  \<open>strings.Join\<close>: nothing for no element, the element itself for one, otherwise the
  first element followed by separator and element for each of the rest.
\<close>

definition strings_Join :: "string list \<Rightarrow> string \<Rightarrow> string" where
  "strings_Join elems sep =
     (case elems of
        [] \<Rightarrow> []
      | [e] \<Rightarrow> e
      | e # rest \<Rightarrow> foldl (\<lambda>b s. b @ sep @ s) e rest)"

text \<open>
  \<open>strings.Split(s, sep)\<close> for a one-byte separator: cut at every occurrence; \<open>cur\<close> is
  the piece being read. The result always has at least one piece.
\<close>

fun splitFrom :: "char \<Rightarrow> string \<Rightarrow> string \<Rightarrow> string list" where
  "splitFrom c cur [] = [cur]"
| "splitFrom c cur (x # xs) =
     (if x = c then cur # splitFrom c [] xs else splitFrom c (cur @ [x]) xs)"

definition strings_Split :: "string \<Rightarrow> char \<Rightarrow> string list" where
  "strings_Split s c = splitFrom c [] s"

section \<open>Fetching\<close>

text \<open>
  The four fetch functions, statement by statement; every \<open>return nil, err\<close> is an
  \<open>Inl\<close>. The calls to \<open>log.Printf\<close> are left out: they change no result. \<open>http.Get\<close>
  returns an error when the transport fails; a response with a status code outside 2xx
  is not an error to it.
\<close>

definition fetchCodeforcesProblemSetWithTag :: "Env \<Rightarrow> string \<Rightarrow> (error + Problem list) upstream" where
  "fetchCodeforcesProblemSetWithTag env tag =
     (let url = CODEFORCES_BASE_URL @ PROBLEMSET_METHOD @ ''?tags='' @ tag in
      (case http_Get env url of
         Inl err \<Rightarrow> Inl err
       | Inr response \<Rightarrow>
           (case io_ReadAll (Body response) of
              Inl err \<Rightarrow> Inl err
            | Inr body \<Rightarrow>
                (case json_Unmarshal env body of
                   Inl err \<Rightarrow> Inl err
                 | Inr codeforcesResponse \<Rightarrow>
                     Inr (sort_Slice env (\<lambda>a b. Rating a < Rating b)
                            (Problems (Result codeforcesResponse))))),
       [url]))"

definition fetchCodeforcesProblemSetWithTagOnly :: "Env \<Rightarrow> string \<Rightarrow> (error + Problem list) upstream" where
  "fetchCodeforcesProblemSetWithTagOnly env tag =
     (case fetchCodeforcesProblemSetWithTag env tag of
        (Inl err, reqs) \<Rightarrow> (Inl err, reqs)
      | (Inr allProblems, reqs) \<Rightarrow>
          (Inr (foldl (\<lambda>problems problem.
                         if length (Tags problem) = 1 then problems @ [problem] else problems)
                  [] allProblems),
           reqs))"

definition fetchCodeforcesProblemSetWithTags :: "Env \<Rightarrow> string list \<Rightarrow> (error + Problem list) upstream" where
  "fetchCodeforcesProblemSetWithTags env tags =
     (let url = CODEFORCES_BASE_URL @ PROBLEMSET_METHOD @ ''?tags='' @ strings_Join tags '';'' in
      (case http_Get env url of
         Inl err \<Rightarrow> Inl err
       | Inr response \<Rightarrow>
           (case io_ReadAll (Body response) of
              Inl err \<Rightarrow> Inl err
            | Inr body \<Rightarrow>
                (case json_Unmarshal env body of
                   Inl err \<Rightarrow> Inl err
                 | Inr codeforcesResponse \<Rightarrow>
                     Inr (sort_Slice env (\<lambda>a b. Rating a < Rating b)
                            (Problems (Result codeforcesResponse))))),
       [url]))"

definition fetchCodeforcesProblemSetWithTagsOnly :: "Env \<Rightarrow> string list \<Rightarrow> (error + Problem list) upstream" where
  "fetchCodeforcesProblemSetWithTagsOnly env tags =
     (case fetchCodeforcesProblemSetWithTags env tags of
        (Inl err, reqs) \<Rightarrow> (Inl err, reqs)
      | (Inr allProblems, reqs) \<Rightarrow>
          (Inr (foldl (\<lambda>problems problem.
                         if length (Tags problem) = length tags then problems @ [problem]
                         else problems)
                  [] allProblems),
           reqs))"

section \<open>HTTP handlers\<close>

text \<open>
  The part of a request the handlers read: the path the mux routes on, and the parsed
  query (\<open>url.Values\<close>, a map from key to the list of its values).
\<close>

record Request =
  Method :: string
  Path :: string
  Query :: "string \<rightharpoonup> string list"

definition Values_Get :: "(string \<rightharpoonup> string list) \<Rightarrow> string \<Rightarrow> string" where
  "Values_Get v key = (case v key of None \<Rightarrow> [] | Some [] \<Rightarrow> [] | Some (x # _) \<Rightarrow> x)"

text \<open>
  What a handler has done to its \<open>http.ResponseWriter\<close>: the status code of the header,
  once it is written, and the bytes of the body. Headers other than the status are left
  out, and writes do not fail.
\<close>

record ResponseWriter =
  status :: "int option"
  written :: string

definition newResponseWriter :: ResponseWriter where
  "newResponseWriter = \<lparr>status = None, written = []\<rparr>"

text \<open>A second \<open>WriteHeader\<close> is superfluous: net/http ignores it (and logs).\<close>

definition WriteHeader :: "ResponseWriter \<Rightarrow> int \<Rightarrow> ResponseWriter" where
  "WriteHeader w code = (if status w = None then w\<lparr>status := Some code\<rparr> else w)"

text \<open>The first \<open>Write\<close> without a header sends \<open>200\<close> first.\<close>

definition Write :: "ResponseWriter \<Rightarrow> string \<Rightarrow> ResponseWriter" where
  "Write w bytes = (let w' = WriteHeader w StatusOK in w'\<lparr>written := written w' @ bytes\<rparr>)"

text \<open>\<open>http.Error\<close>: the header with the code, then the message and a line feed.\<close>

definition http_Error :: "ResponseWriter \<Rightarrow> string \<Rightarrow> int \<Rightarrow> ResponseWriter" where
  "http_Error w msg code = Write (WriteHeader w code) (msg @ [CHR 0x0A])"

text \<open>
  \<open>json.NewEncoder(w).Encode(v)\<close>: marshal first; an error there leaves the writer
  untouched; otherwise the encoding and a line feed are written.
\<close>

definition Encode :: "Env \<Rightarrow> ResponseWriter \<Rightarrow> Problem list \<Rightarrow> ResponseWriter \<times> error option" where
  "Encode env w v =
     (case json_Marshal env v of
        Inl err \<Rightarrow> (w, Some err)
      | Inr js \<Rightarrow> (Write w (js @ [CHR 0x0A]), None))"

definition problemsByTagHandler :: "Env \<Rightarrow> ResponseWriter \<Rightarrow> Request \<Rightarrow> ResponseWriter upstream" where
  "problemsByTagHandler env w r =
     (let tag = Values_Get (Query r) ''tag'' in
      case fetchCodeforcesProblemSetWithTag env tag of
        (Inl err, reqs) \<Rightarrow> (http_Error w (errorText err) StatusInternalServerError, reqs)
      | (Inr problems, reqs) \<Rightarrow>
          (case Encode env w problems of
             (w', Some err) \<Rightarrow> (http_Error w' (errorText err) StatusInternalServerError, reqs)
           | (w', None) \<Rightarrow> (WriteHeader w' StatusOK, reqs)))"

definition problemsByTagsHandler :: "Env \<Rightarrow> ResponseWriter \<Rightarrow> Request \<Rightarrow> ResponseWriter upstream" where
  "problemsByTagsHandler env w r =
     (let tags = Values_Get (Query r) ''tags'' in
      case fetchCodeforcesProblemSetWithTags env (strings_Split tags (CHR '','')) of
        (Inl err, reqs) \<Rightarrow> (http_Error w (errorText err) StatusInternalServerError, reqs)
      | (Inr problems, reqs) \<Rightarrow>
          (case Encode env w problems of
             (w', Some err) \<Rightarrow> (http_Error w' (errorText err) StatusInternalServerError, reqs)
           | (w', None) \<Rightarrow> (WriteHeader w' StatusOK, reqs)))"

definition problemsByTagOnlyHandler :: "Env \<Rightarrow> ResponseWriter \<Rightarrow> Request \<Rightarrow> ResponseWriter upstream" where
  "problemsByTagOnlyHandler env w r =
     (let tag = Values_Get (Query r) ''tag'' in
      case fetchCodeforcesProblemSetWithTagOnly env tag of
        (Inl err, reqs) \<Rightarrow> (http_Error w (errorText err) StatusInternalServerError, reqs)
      | (Inr problems, reqs) \<Rightarrow>
          (case Encode env w problems of
             (w', Some err) \<Rightarrow> (http_Error w' (errorText err) StatusInternalServerError, reqs)
           | (w', None) \<Rightarrow> (WriteHeader w' StatusOK, reqs)))"

definition problemsByTagsOnlyHandler :: "Env \<Rightarrow> ResponseWriter \<Rightarrow> Request \<Rightarrow> ResponseWriter upstream" where
  "problemsByTagsOnlyHandler env w r =
     (let tags = Values_Get (Query r) ''tags'' in
      case fetchCodeforcesProblemSetWithTagsOnly env (strings_Split tags (CHR '','')) of
        (Inl err, reqs) \<Rightarrow> (http_Error w (errorText err) StatusInternalServerError, reqs)
      | (Inr problems, reqs) \<Rightarrow>
          (case Encode env w problems of
             (w', Some err) \<Rightarrow> (http_Error w' (errorText err) StatusInternalServerError, reqs)
           | (w', None) \<Rightarrow> (WriteHeader w' StatusOK, reqs)))"

definition healthHandler :: "ResponseWriter \<Rightarrow> Request \<Rightarrow> ResponseWriter" where
  "healthHandler w r = Write (WriteHeader w StatusOK) ''ok''"

text \<open>
  The routes \<open>main\<close> registers, behind \<open>loggingMiddleware\<close> (which passes writer and
  request on unchanged and logs afterwards). Every pattern is a fixed path, which the
  mux matches exactly; what net/http itself answers on any other path is not modelled
  (\<open>None\<close>).
\<close>

definition ServeHTTP :: "Env \<Rightarrow> ResponseWriter \<Rightarrow> Request \<Rightarrow> (ResponseWriter upstream) option" where
  "ServeHTTP env w r =
     (if Path r = ''/health'' then Some (healthHandler w r, [])
      else if Path r = ''/problems'' then Some (problemsByTagHandler env w r)
      else if Path r = ''/problems/multi'' then Some (problemsByTagsHandler env w r)
      else if Path r = ''/problems/only'' then Some (problemsByTagOnlyHandler env w r)
      else if Path r = ''/problems/multi/only'' then Some (problemsByTagsOnlyHandler env w r)
      else None)"

section \<open>The contract of \<open>sort.Slice\<close>\<close>

text \<open>
  The \<open>less\<close> function (here \<open>lt\<close>) must be a strict weak ordering (package sort, \<open>Interface.Less\<close>).
\<close>

definition strictWeakOrder :: "('a \<Rightarrow> 'a \<Rightarrow> bool) \<Rightarrow> bool" where
  "strictWeakOrder lt \<longleftrightarrow>
     (\<forall>a. \<not> lt a a) \<and>
     (\<forall>a b c. lt a b \<and> lt b c \<longrightarrow> lt a c) \<and>
     (\<forall>a b c. \<not> lt a b \<and> \<not> lt b c \<longrightarrow> \<not> lt a c)"

text \<open>
  What the documentation of \<open>sort.Slice\<close> promises: the slice is rearranged (only by
  swaps, so it keeps its elements) into an order in which no later element is less than
  an earlier one. It promises no stability.
\<close>

definition sortSliceContract :: "(('a \<Rightarrow> 'a \<Rightarrow> bool) \<Rightarrow> 'a list \<Rightarrow> 'a list) \<Rightarrow> bool" where
  "sortSliceContract srt \<longleftrightarrow>
     (\<forall>lt xs. strictWeakOrder lt \<longrightarrow>
        mset (srt lt xs) = mset xs \<and> sorted_wrt (\<lambda>a b. \<not> lt b a) (srt lt xs))"

text \<open>
  A sort that meets the contract: the insertion sort package sort runs on short slices,
  written on lists. Each element in turn moves left while it is less than its left
  neighbour (\<open>pre\<close> is the part already sorted, nearest neighbour first).
\<close>

fun sinkLeft :: "('a \<Rightarrow> 'a \<Rightarrow> bool) \<Rightarrow> 'a \<Rightarrow> 'a list \<Rightarrow> 'a list" where
  "sinkLeft lt x [] = [x]"
| "sinkLeft lt x (y # pre) = (if lt x y then y # sinkLeft lt x pre else x # y # pre)"

definition insertionSort :: "('a \<Rightarrow> 'a \<Rightarrow> bool) \<Rightarrow> 'a list \<Rightarrow> 'a list" where
  "insertionSort lt xs = rev (foldl (\<lambda>pre x. sinkLeft lt x pre) [] xs)"

section \<open>What \<open>sort.Slice\<close> runs\<close>

text \<open>
  Since Go 1.19 package sort sorts with pattern-defeating quicksort. The functions below
  follow its \<open>pdqsort_func\<close> and what that calls, function by function, on a list
  indexed from 0: \<open>data.Less(i, j)\<close> is \<open>dataLess\<close>, \<open>data.Swap(i, j)\<close> is \<open>dataSwap\<close>.
  Two helpers are not modelled: \<open>breakPatterns_func\<close>, which runs after an unbalanced
  partition, and \<open>heapSort_func\<close>, which runs once such partitions have used up
  \<open>limit\<close>. A run that reaches either has the result \<open>None\<close>.
\<close>

definition dataLess :: "('a \<Rightarrow> 'a \<Rightarrow> bool) \<Rightarrow> 'a list \<Rightarrow> nat \<Rightarrow> nat \<Rightarrow> bool" where
  "dataLess lt data i j = lt (data ! i) (data ! j)"

definition dataSwap :: "'a list \<Rightarrow> nat \<Rightarrow> nat \<Rightarrow> 'a list" where
  "dataSwap data i j = data[i := data ! j, j := data ! i]"

text \<open>\<open>insertionSort_func\<close>: the inner loop runs \<open>j\<close> down from \<open>i\<close>, the outer loop \<open>i\<close> up to \<open>b\<close>.\<close>

fun insertionSort_inner :: "('a \<Rightarrow> 'a \<Rightarrow> bool) \<Rightarrow> nat \<Rightarrow> nat \<Rightarrow> 'a list \<Rightarrow> 'a list" where
  "insertionSort_inner lt a 0 data = data"
| "insertionSort_inner lt a (Suc j) data =
     (if Suc j > a \<and> dataLess lt data (Suc j) j
      then insertionSort_inner lt a j (dataSwap data (Suc j) j)
      else data)"

function insertionSort_outer :: "('a \<Rightarrow> 'a \<Rightarrow> bool) \<Rightarrow> nat \<Rightarrow> nat \<Rightarrow> nat \<Rightarrow> 'a list \<Rightarrow> 'a list" where
  "insertionSort_outer lt a b i data =
     (if i < b then insertionSort_outer lt a b (i + 1) (insertionSort_inner lt a i data)
      else data)"
  by pat_completeness auto
termination
  by (relation "measure (\<lambda>(lt, a, b, i, data). b - i)") auto

definition insertionSort_func :: "('a \<Rightarrow> 'a \<Rightarrow> bool) \<Rightarrow> 'a list \<Rightarrow> nat \<Rightarrow> nat \<Rightarrow> 'a list" where
  "insertionSort_func lt data a b = insertionSort_outer lt a b (a + 1) data"

text \<open>
  \<open>choosePivot_func\<close> and its helpers. They read the data and count in \<open>swaps\<close> how many
  pairs they found out of order; nothing is moved.
\<close>

datatype sortedHint = unknownHint | increasingHint | decreasingHint

definition order2_func ::
  "('a \<Rightarrow> 'a \<Rightarrow> bool) \<Rightarrow> 'a list \<Rightarrow> nat \<Rightarrow> nat \<Rightarrow> nat \<Rightarrow> nat \<times> nat \<times> nat" where
  "order2_func lt data a b swaps =
     (if dataLess lt data b a then (b, a, swaps + 1) else (a, b, swaps))"

definition median_func ::
  "('a \<Rightarrow> 'a \<Rightarrow> bool) \<Rightarrow> 'a list \<Rightarrow> nat \<Rightarrow> nat \<Rightarrow> nat \<Rightarrow> nat \<Rightarrow> nat \<times> nat" where
  "median_func lt data a b c swaps =
     (case order2_func lt data a b swaps of (a, b, swaps) \<Rightarrow>
      case order2_func lt data b c swaps of (b, c, swaps) \<Rightarrow>
      case order2_func lt data a b swaps of (a, b, swaps) \<Rightarrow> (b, swaps))"

definition medianAdjacent_func ::
  "('a \<Rightarrow> 'a \<Rightarrow> bool) \<Rightarrow> 'a list \<Rightarrow> nat \<Rightarrow> nat \<Rightarrow> nat \<times> nat" where
  "medianAdjacent_func lt data a swaps = median_func lt data (a - 1) a (a + 1) swaps"

definition choosePivot_func ::
  "('a \<Rightarrow> 'a \<Rightarrow> bool) \<Rightarrow> 'a list \<Rightarrow> nat \<Rightarrow> nat \<Rightarrow> nat \<times> sortedHint" where
  "choosePivot_func lt data a b =
     (let l = b - a;
          i = a + l div 4 * 1;
          j = a + l div 4 * 2;
          k = a + l div 4 * 3 in
      case (if l \<ge> 8 then
              (case (if l \<ge> 50 then
                       (case medianAdjacent_func lt data i 0 of (i, swaps) \<Rightarrow>
                        case medianAdjacent_func lt data j swaps of (j, swaps) \<Rightarrow>
                        case medianAdjacent_func lt data k swaps of (k, swaps) \<Rightarrow>
                          (i, j, k, swaps))
                     else (i, j, k, 0)) of
                 (i, j, k, swaps) \<Rightarrow> median_func lt data i j k swaps)
            else (j, 0)) of
        (j, swaps) \<Rightarrow>
          if swaps = 0 then (j, increasingHint)
          else if swaps = 4 * 3 then (j, decreasingHint)
          else (j, unknownHint))"

text \<open>\<open>reverseRange_func\<close>.\<close>

function reverseRange_loop :: "'a list \<Rightarrow> nat \<Rightarrow> nat \<Rightarrow> 'a list" where
  "reverseRange_loop data i j =
     (if i < j then reverseRange_loop (dataSwap data i j) (i + 1) (j - 1) else data)"
  by pat_completeness auto
termination
  by (relation "measure (\<lambda>(data, i, j). j - i)") auto

definition reverseRange_func :: "'a list \<Rightarrow> nat \<Rightarrow> nat \<Rightarrow> 'a list" where
  "reverseRange_func data a b = reverseRange_loop data a (b - 1)"

text \<open>
  \<open>partialInsertionSort_func\<close>: at most five steps; each skips the ordered run from \<open>i\<close>
  (\<open>skipOrdered\<close>), reports a sorted slice, gives up on a slice shorter than 50, or
  swaps the pair out of order and shifts the smaller element left and the greater one
  right.
\<close>

function skipOrdered :: "('a \<Rightarrow> 'a \<Rightarrow> bool) \<Rightarrow> 'a list \<Rightarrow> nat \<Rightarrow> nat \<Rightarrow> nat" where
  "skipOrdered lt data b i =
     (if i < b \<and> \<not> dataLess lt data i (i - 1) then skipOrdered lt data b (i + 1) else i)"
  by pat_completeness auto
termination
  by (relation "measure (\<lambda>(lt, data, b, i). b - i)") auto

fun shiftSmaller :: "('a \<Rightarrow> 'a \<Rightarrow> bool) \<Rightarrow> nat \<Rightarrow> 'a list \<Rightarrow> 'a list" where
  "shiftSmaller lt 0 data = data"
| "shiftSmaller lt (Suc j) data =
     (if \<not> dataLess lt data (Suc j) j then data
      else shiftSmaller lt j (dataSwap data (Suc j) j))"

function shiftGreater :: "('a \<Rightarrow> 'a \<Rightarrow> bool) \<Rightarrow> nat \<Rightarrow> nat \<Rightarrow> 'a list \<Rightarrow> 'a list" where
  "shiftGreater lt b j data =
     (if j < b then
        (if \<not> dataLess lt data j (j - 1) then data
         else shiftGreater lt b (j + 1) (dataSwap data j (j - 1)))
      else data)"
  by pat_completeness auto
termination
  by (relation "measure (\<lambda>(lt, b, j, data). b - j)") auto

definition shiftAround :: "('a \<Rightarrow> 'a \<Rightarrow> bool) \<Rightarrow> nat \<Rightarrow> nat \<Rightarrow> nat \<Rightarrow> 'a list \<Rightarrow> 'a list" where
  "shiftAround lt a b i data =
     (let data = dataSwap data i (i - 1);
          data = (if i - a \<ge> 2 then shiftSmaller lt (i - 1) data else data);
          data = (if b - i \<ge> 2 then shiftGreater lt b (i + 1) data else data)
      in data)"

primrec partialInsertionSort_steps ::
  "nat \<Rightarrow> ('a \<Rightarrow> 'a \<Rightarrow> bool) \<Rightarrow> nat \<Rightarrow> nat \<Rightarrow> nat \<Rightarrow> 'a list \<Rightarrow> 'a list \<times> bool" where
  "partialInsertionSort_steps 0 lt a b i data = (data, False)"
| "partialInsertionSort_steps (Suc steps) lt a b i data =
     (let i = skipOrdered lt data b i in
      if i = b then (data, True)
      else if b - a < 50 then (data, False)
      else partialInsertionSort_steps steps lt a b i (shiftAround lt a b i data))"

definition partialInsertionSort_func ::
  "('a \<Rightarrow> 'a \<Rightarrow> bool) \<Rightarrow> 'a list \<Rightarrow> nat \<Rightarrow> nat \<Rightarrow> 'a list \<times> bool" where
  "partialInsertionSort_func lt data a b = partialInsertionSort_steps 5 lt a b (a + 1) data"

text \<open>
  \<open>partition_func\<close>: the pivot goes to \<open>a\<close>; \<open>i\<close> runs up over elements less than the
  pivot, \<open>j\<close> runs down over the others, and each pair they stop at is swapped. \<open>i\<close>
  starts at \<open>a + 1\<close>, so \<open>j\<close> never has to go below 0.
\<close>

function partition_up :: "('a \<Rightarrow> 'a \<Rightarrow> bool) \<Rightarrow> 'a list \<Rightarrow> nat \<Rightarrow> nat \<Rightarrow> nat \<Rightarrow> nat" where
  "partition_up lt data a i j =
     (if i \<le> j \<and> dataLess lt data i a then partition_up lt data a (i + 1) j else i)"
  by pat_completeness auto
termination
  by (relation "measure (\<lambda>(lt, data, a, i, j). j + 1 - i)") auto

fun partition_down :: "('a \<Rightarrow> 'a \<Rightarrow> bool) \<Rightarrow> 'a list \<Rightarrow> nat \<Rightarrow> nat \<Rightarrow> nat \<Rightarrow> nat" where
  "partition_down lt data a i 0 = 0"
| "partition_down lt data a i (Suc j) =
     (if i \<le> Suc j \<and> \<not> dataLess lt data (Suc j) a then partition_down lt data a i j
      else Suc j)"

function partition_loop ::
  "('a \<Rightarrow> 'a \<Rightarrow> bool) \<Rightarrow> nat \<Rightarrow> 'a list \<Rightarrow> nat \<Rightarrow> nat \<Rightarrow> 'a list \<times> nat" where
  "partition_loop lt a data i j =
     (let i = partition_up lt data a i j;
          j = partition_down lt data a i j in
      if i > j then (data, j)
      else partition_loop lt a (dataSwap data i j) (i + 1) (j - 1))"
  by pat_completeness auto
termination
proof (relation "measure (\<lambda>(lt, a, data, i, j). j + 1 - i)")
  show "wf (measure (\<lambda>(lt, a, data, i, j). j + 1 - i))"
    by simp
next
  fix lt :: "'a \<Rightarrow> 'a \<Rightarrow> bool" and a :: nat and data :: "'a list" and i j i' j' :: nat
  assume i': "i' = partition_up lt data a i j"
    and j': "j' = partition_down lt data a i' j"
    and le: "\<not> j' < i'"
  have up: "i \<le> partition_up lt data a i j"
  proof (induction lt data a i j rule: partition_up.induct)
    case (1 lt data a i j)
    then show ?case
      by (subst partition_up.simps) (auto simp del: partition_up.simps dest: Suc_leD)
  qed
  have down: "partition_down lt data a i' j \<le> j"
    by (induction j) (simp_all add: le_SucI)
  have "i \<le> i'" unfolding i' by (rule up)
  moreover have "j' \<le> j" unfolding j' by (rule down)
  ultimately show "((lt, a, dataSwap data i' j', i' + 1, j' - 1), (lt, a, data, i, j))
          \<in> measure (\<lambda>(lt, a, data, i, j). j + 1 - i)"
    using le by simp
qed

definition partition_func ::
  "('a \<Rightarrow> 'a \<Rightarrow> bool) \<Rightarrow> 'a list \<Rightarrow> nat \<Rightarrow> nat \<Rightarrow> nat \<Rightarrow> 'a list \<times> nat \<times> bool" where
  "partition_func lt data a b pivot =
     (let data = dataSwap data a pivot;
          i = partition_up lt data a (a + 1) (b - 1);
          j = partition_down lt data a i (b - 1) in
      if i > j then (dataSwap data j a, j, True)
      else
        (case partition_loop lt a (dataSwap data i j) (i + 1) (j - 1) of
           (data, j) \<Rightarrow> (dataSwap data j a, j, False)))"

text \<open>\<open>partitionEqual_func\<close>, for a pivot equal to the element before the slice.\<close>

function partitionEqual_up :: "('a \<Rightarrow> 'a \<Rightarrow> bool) \<Rightarrow> 'a list \<Rightarrow> nat \<Rightarrow> nat \<Rightarrow> nat \<Rightarrow> nat" where
  "partitionEqual_up lt data a i j =
     (if i \<le> j \<and> \<not> dataLess lt data a i then partitionEqual_up lt data a (i + 1) j else i)"
  by pat_completeness auto
termination
  by (relation "measure (\<lambda>(lt, data, a, i, j). j + 1 - i)") auto

fun partitionEqual_down :: "('a \<Rightarrow> 'a \<Rightarrow> bool) \<Rightarrow> 'a list \<Rightarrow> nat \<Rightarrow> nat \<Rightarrow> nat \<Rightarrow> nat" where
  "partitionEqual_down lt data a i 0 = 0"
| "partitionEqual_down lt data a i (Suc j) =
     (if i \<le> Suc j \<and> dataLess lt data a (Suc j) then partitionEqual_down lt data a i j
      else Suc j)"

function partitionEqual_loop ::
  "('a \<Rightarrow> 'a \<Rightarrow> bool) \<Rightarrow> nat \<Rightarrow> 'a list \<Rightarrow> nat \<Rightarrow> nat \<Rightarrow> 'a list \<times> nat" where
  "partitionEqual_loop lt a data i j =
     (let i = partitionEqual_up lt data a i j;
          j = partitionEqual_down lt data a i j in
      if i > j then (data, i)
      else partitionEqual_loop lt a (dataSwap data i j) (i + 1) (j - 1))"
  by pat_completeness auto
termination
proof (relation "measure (\<lambda>(lt, a, data, i, j). j + 1 - i)")
  show "wf (measure (\<lambda>(lt, a, data, i, j). j + 1 - i))"
    by simp
next
  fix lt :: "'a \<Rightarrow> 'a \<Rightarrow> bool" and a :: nat and data :: "'a list" and i j i' j' :: nat
  assume i': "i' = partitionEqual_up lt data a i j"
    and j': "j' = partitionEqual_down lt data a i' j"
    and le: "\<not> j' < i'"
  have up: "i \<le> partitionEqual_up lt data a i j"
  proof (induction lt data a i j rule: partitionEqual_up.induct)
    case (1 lt data a i j)
    then show ?case
      by (subst partitionEqual_up.simps) (auto simp del: partitionEqual_up.simps dest: Suc_leD)
  qed
  have down: "partitionEqual_down lt data a i' j \<le> j"
    by (induction j) (simp_all add: le_SucI)
  have "i \<le> i'" unfolding i' by (rule up)
  moreover have "j' \<le> j" unfolding j' by (rule down)
  ultimately show "((lt, a, dataSwap data i' j', i' + 1, j' - 1), (lt, a, data, i, j))
          \<in> measure (\<lambda>(lt, a, data, i, j). j + 1 - i)"
    using le by simp
qed

definition partitionEqual_func ::
  "('a \<Rightarrow> 'a \<Rightarrow> bool) \<Rightarrow> 'a list \<Rightarrow> nat \<Rightarrow> nat \<Rightarrow> nat \<Rightarrow> 'a list \<times> nat" where
  "partitionEqual_func lt data a b pivot =
     partitionEqual_loop lt a (dataSwap data a pivot) (a + 1) (b - 1)"

text \<open>
  \<open>pdqsort_func\<close>. Its loop is a recursive call with the new \<open>a\<close> or \<open>b\<close>; the call it
  makes on the shorter side starts with both flags set, as a fresh call does. Where the
  Go code calls \<open>heapSort_func\<close> or \<open>breakPatterns_func\<close> the result is \<open>None\<close>. Every call
  works on a shorter range than the one before, which is why it terminates.
\<close>

declare partition_up.simps [simp del] partitionEqual_up.simps [simp del]
  partition_loop.simps [simp del] partitionEqual_loop.simps [simp del]

function pdqsort_func ::
  "('a \<Rightarrow> 'a \<Rightarrow> bool) \<Rightarrow> 'a list \<Rightarrow> nat \<Rightarrow> nat \<Rightarrow> nat \<Rightarrow> bool \<Rightarrow> bool \<Rightarrow> 'a list option" where
  "pdqsort_func lt data a b limit wasBalanced wasPartitioned =
     (let len = b - a in
      if len \<le> 12 then Some (insertionSort_func lt data a b)
      else if limit = 0 then None
      else if \<not> wasBalanced then None
      else
        (case choosePivot_func lt data a b of (pivot, hint) \<Rightarrow>
         case (if hint = decreasingHint
               then (reverseRange_func data a b, (b - 1) - (pivot - a), increasingHint)
               else (data, pivot, hint)) of (data, pivot, hint) \<Rightarrow>
         case (if wasBalanced \<and> wasPartitioned \<and> hint = increasingHint
               then partialInsertionSort_func lt data a b
               else (data, False)) of (data, done) \<Rightarrow>
         if done then Some data
         else if a > 0 \<and> \<not> dataLess lt data (a - 1) pivot then
           (case partitionEqual_func lt data a b pivot of (data, mid) \<Rightarrow>
              pdqsort_func lt data mid b limit wasBalanced wasPartitioned)
         else
           (case partition_func lt data a b pivot of (data, mid, alreadyPartitioned) \<Rightarrow>
              let leftLen = mid - a;
                  rightLen = b - mid;
                  balanceThreshold = len div 8 in
              if leftLen < rightLen then
                (case pdqsort_func lt data a mid limit True True of
                   None \<Rightarrow> None
                 | Some data \<Rightarrow>
                     pdqsort_func lt data (mid + 1) b limit
                       (leftLen \<ge> balanceThreshold) alreadyPartitioned)
              else
                (case pdqsort_func lt data (mid + 1) b limit True True of
                   None \<Rightarrow> None
                 | Some data \<Rightarrow>
                     pdqsort_func lt data a mid limit
                       (rightLen \<ge> balanceThreshold) alreadyPartitioned))))"
  by pat_completeness auto
termination
proof -
  have up_bounds: "i \<le> partition_up lt data a i j \<and> partition_up lt data a i j \<le> max i (j + 1)"
    for lt :: "'a \<Rightarrow> 'a \<Rightarrow> bool" and data a i j
  proof (induction lt data a i j rule: partition_up.induct)
    case (1 lt data a i j)
    then show ?case
      by (subst (1 2) partition_up.simps) (auto dest: Suc_leD)
  qed
  have down_bounds:
    "partition_down lt data a i j \<le> j \<and> min j (i - 1) \<le> partition_down lt data a i j"
    for lt :: "'a \<Rightarrow> 'a \<Rightarrow> bool" and data a i j
    by (induction j) auto
  have loop_bounds: "min j (i - 1) \<le> r \<and> r \<le> j"
    if "partition_loop lt a data i j = (d, r)"
    for lt :: "'a \<Rightarrow> 'a \<Rightarrow> bool" and a data i j d r
    using that
  proof (induction lt a data i j arbitrary: d r rule: partition_loop.induct)
    case (1 lt a data i j)
    define i' where "i' = partition_up lt data a i j"
    define j' where "j' = partition_down lt data a i' j"
    have up: "i \<le> i'"
      unfolding i'_def using up_bounds[of i lt data a j] by simp
    have down: "j' \<le> j" "min j (i' - 1) \<le> j'"
      unfolding j'_def using down_bounds[of lt data a i' j] by simp_all
    have unfold: "partition_loop lt a data i j =
        (if i' > j' then (data, j')
         else partition_loop lt a (dataSwap data i' j') (i' + 1) (j' - 1))"
      by (subst partition_loop.simps) (simp add: Let_def i'_def j'_def)
    show ?case
    proof (cases "i' > j'")
      case True
      then have "r = j'" using "1.prems" unfold by simp
      with up down show ?thesis by arith
    next
      case False
      then have rec: "partition_loop lt a (dataSwap data i' j') (i' + 1) (j' - 1) = (d, r)"
        using "1.prems" unfold by simp
      have "min (j' - 1) (i' + 1 - 1) \<le> r \<and> r \<le> j' - 1"
        using "1.IH"[OF i'_def j'_def _ rec] False by simp
      with up down False show ?thesis by arith
    qed
  qed
  have partition_bounds: "a \<le> mid \<and> mid < b"
    if p: "partition_func lt data a b pivot = (d, mid, ap)" and ab: "a < b"
    for lt :: "'a \<Rightarrow> 'a \<Rightarrow> bool" and data a b pivot d mid ap
  proof -
    define data' where "data' = dataSwap data a pivot"
    define i where "i = partition_up lt data' a (a + 1) (b - 1)"
    define j where "j = partition_down lt data' a i (b - 1)"
    have up: "a + 1 \<le> i" "i \<le> b"
      unfolding i_def using up_bounds[of "a + 1" lt data' a "b - 1"] ab by auto
    have down: "j \<le> b - 1" "min (b - 1) (i - 1) \<le> j"
      unfolding j_def using down_bounds[of lt data' a i "b - 1"] by simp_all
    have unfold: "partition_func lt data a b pivot =
        (if i > j then (dataSwap data' j a, j, True)
         else (case partition_loop lt a (dataSwap data' i j) (i + 1) (j - 1) of
                 (data, j) \<Rightarrow> (dataSwap data j a, j, False)))"
      by (simp add: partition_func_def Let_def data'_def i_def j_def)
    show ?thesis
    proof (cases "i > j")
      case True
      then have "mid = j" using p unfold by simp
      with up down ab show ?thesis by arith
    next
      case False
      then obtain d' where
        "partition_loop lt a (dataSwap data' i j) (i + 1) (j - 1) = (d', mid)"
        using p unfold by (auto split: prod.splits)
      from loop_bounds[OF this]
      have "min (j - 1) (i + 1 - 1) \<le> mid \<and> mid \<le> j - 1" .
      with up down False ab show ?thesis by arith
    qed
  qed
  have equal_up: "i \<le> partitionEqual_up lt data a i j"
    for lt :: "'a \<Rightarrow> 'a \<Rightarrow> bool" and data a i j
  proof (induction lt data a i j rule: partitionEqual_up.induct)
    case (1 lt data a i j)
    then show ?case
      by (subst partitionEqual_up.simps) (auto dest: Suc_leD)
  qed
  have equal_loop: "i \<le> r"
    if "partitionEqual_loop lt a data i j = (d, r)"
    for lt :: "'a \<Rightarrow> 'a \<Rightarrow> bool" and a data i j d r
    using that
  proof (induction lt a data i j arbitrary: d r rule: partitionEqual_loop.induct)
    case (1 lt a data i j)
    define i' where "i' = partitionEqual_up lt data a i j"
    define j' where "j' = partitionEqual_down lt data a i' j"
    have up: "i \<le> i'" unfolding i'_def by (rule equal_up)
    have unfold: "partitionEqual_loop lt a data i j =
        (if i' > j' then (data, i')
         else partitionEqual_loop lt a (dataSwap data i' j') (i' + 1) (j' - 1))"
      by (subst partitionEqual_loop.simps) (simp add: Let_def i'_def j'_def)
    show ?case
    proof (cases "i' > j'")
      case True
      then have "r = i'" using "1.prems" unfold by simp
      with up show ?thesis by simp
    next
      case False
      then have rec:
        "partitionEqual_loop lt a (dataSwap data i' j') (i' + 1) (j' - 1) = (d, r)"
        using "1.prems" unfold by simp
      have "i' + 1 \<le> r"
        using "1.IH"[OF i'_def j'_def _ rec] False by simp
      with up show ?thesis by simp
    qed
  qed
  have equal_bound: "a < mid"
    if "partitionEqual_func lt data a b pivot = (d, mid)"
    for lt :: "'a \<Rightarrow> 'a \<Rightarrow> bool" and data a b pivot d mid
    using that equal_loop[of lt a "dataSwap data a pivot" "a + 1" "b - 1" d mid]
    by (simp add: partitionEqual_func_def)
  show ?thesis
  proof (relation "measure (\<lambda>(lt, data, a, b, limit, wb, wp). b - a)", goal_cases)
    case 1
    show ?case by simp
  next
    case (2 lt data a b limit wasBalanced wasPartitioned x xa y xb ya xaa yb xab yc xc yd)
    from equal_bound[OF 2(11)[symmetric]] 2(1,2) show ?case by simp
  next
    case (3 lt data a b limit wasBalanced wasPartitioned x xa y xb ya xaa yb xab yc xac yd xad ye)
    have pf: "partition_func lt xab a b xaa = (xac, xad, ye)"
      using 3(11,12) by simp
    have "a < b" using 3(1,2) by simp
    from partition_bounds[OF pf this] show ?case by (auto intro: diff_less_mono)
  next
    case (4 lt data a b limit wasBalanced wasPartitioned x xa y xb ya xaa yb xab yc xac yd xad ye)
    have pf: "partition_func lt xab a b xaa = (xac, xad, ye)"
      using 4(11,12) by simp
    have "a < b" using 4(1,2) by simp
    from partition_bounds[OF pf this] show ?case by (auto intro: diff_less_mono)
  next
    case (5 lt data a b limit wasBalanced wasPartitioned x xa y xb ya xaa yb xab yc xac yd xad ye)
    have pf: "partition_func lt xab a b xaa = (xac, xad, ye)"
      using 5(11,12) by simp
    have "a < b" using 5(1,2) by simp
    from partition_bounds[OF pf this] show ?case by (auto intro: diff_less_mono)
  next
    case (6 lt data a b limit wasBalanced wasPartitioned x xa y xb ya xaa yb xab yc xac yd xad ye)
    have pf: "partition_func lt xab a b xaa = (xac, xad, ye)"
      using 6(11,12) by simp
    have "a < b" using 6(1,2) by simp
    from partition_bounds[OF pf this] show ?case by (auto intro: diff_less_mono)
  qed
qed

declare pdqsort_func.simps [simp del]

text \<open>\<open>bits.Len\<close>: the number of bits of \<open>n\<close>.\<close>

fun bits_Len :: "nat \<Rightarrow> nat" where
  "bits_Len n = (if n = 0 then 0 else Suc (bits_Len (n div 2)))"

declare bits_Len.simps [simp del]

text \<open>\<open>sort.Slice\<close> itself: \<open>pdqsort_func\<close> on the whole slice with \<open>limit = bits.Len(length)\<close>.\<close>

definition sort_Slice_pdqsort :: "('a \<Rightarrow> 'a \<Rightarrow> bool) \<Rightarrow> 'a list \<Rightarrow> 'a list option" where
  "sort_Slice_pdqsort lt x =
     (let n = length x;
          limit = bits_Len n in
      pdqsort_func lt x 0 n limit True True)"

text \<open>
  As a field of the environment: the result of the run where there is one, and the
  insertion sort (which keeps ties in their order) where the run is not modelled.
\<close>

definition goSlice :: "('a \<Rightarrow> 'a \<Rightarrow> bool) \<Rightarrow> 'a list \<Rightarrow> 'a list" where
  "goSlice lt x =
     (case sort_Slice_pdqsort lt x of Some result \<Rightarrow> result | None \<Rightarrow> insertionSort lt x)"
section \<open>The spec's wording of the tag separator\<close>

text \<open>
  "Joining multiple tags with the separator": the tags in order, the separator between
  each two neighbours.
\<close>

fun joinedWith :: "string \<Rightarrow> string list \<Rightarrow> string" where
  "joinedWith sep [] = []"
| "joinedWith sep [t] = t"
| "joinedWith sep (t # u # ts) = t @ sep @ joinedWith sep (u # ts)"

section \<open>Example upstreams\<close>

text \<open>
  Four problems as the decoder produces them from the bodies below (fields absent from the
  JSON keep their zero value). \<open>problemA\<close> and \<open>problemD\<close> have the same rating.
\<close>

definition problemA :: Problem where
  "problemA = \<lparr>ContestID = 0, ProblemSetName = [], Index = [], Name = ''A'', Type = [],
                Points = 0, Rating = 1200, Tags = [''dp'']\<rparr>"

definition problemB :: Problem where
  "problemB = \<lparr>ContestID = 0, ProblemSetName = [], Index = [], Name = ''B'', Type = [],
                Points = 0, Rating = 900, Tags = [''dp'', ''greedy'']\<rparr>"

definition problemC :: Problem where
  "problemC = \<lparr>ContestID = 0, ProblemSetName = [], Index = [], Name = ''C'', Type = [],
                Points = 0, Rating = 1600, Tags = [''dp'']\<rparr>"

definition problemD :: Problem where
  "problemD = \<lparr>ContestID = 0, ProblemSetName = [], Index = [], Name = ''D'', Type = [],
                Points = 0, Rating = 1200, Tags = [''dp'']\<rparr>"

definition bodyABC :: "string \<Rightarrow> string" where
  \<open>bodyABC st = ''{"status":"'' @ st @ ''","result":{"problems":[{"name":"A","rating":1200,"tags":["dp"]},{"name":"B","rating":900,"tags":["dp","greedy"]},{"name":"C","rating":1600,"tags":["dp"]}]}}''\<close>

definition bodyAD :: string where
  \<open>bodyAD = ''{"status":"OK","result":{"problems":[{"name":"A","rating":1200,"tags":["dp"]},{"name":"D","rating":1200,"tags":["dp"]}]}}''\<close>

definition bodyFailed :: string where
  \<open>bodyFailed = ''{"status":"FAILED","comment":"Call limit exceeded"}''\<close>

text \<open>
  \<open>json.Unmarshal\<close> restricted to these bodies; any other body is taken to be the text
  \<open><html>\<close> of an error page, which is not JSON.
\<close>

definition exampleUnmarshal :: "string \<Rightarrow> error + CodeforcesResponse" where
  "exampleUnmarshal body =
     (if body = bodyABC ''OK'' then
        Inr \<lparr>Status = ''OK'', Result = \<lparr>Problems = [problemA, problemB, problemC]\<rparr>\<rparr>
      else if body = bodyABC ''FAILED'' then
        Inr \<lparr>Status = ''FAILED'', Result = \<lparr>Problems = [problemA, problemB, problemC]\<rparr>\<rparr>
      else if body = bodyAD then
        Inr \<lparr>Status = ''OK'', Result = \<lparr>Problems = [problemA, problemD]\<rparr>\<rparr>
      else if body = bodyFailed then
        Inr \<lparr>Status = ''FAILED'', Result = \<lparr>Problems = []\<rparr>\<rparr>
      else Inl (Error ''invalid character < looking for beginning of value''))"

text \<open>The encoder restricted to the one list the examples encode.\<close>

definition exampleMarshal :: "Problem list \<Rightarrow> error + string" where
  \<open>exampleMarshal v =
     (if v = [problemB, problemA, problemC] then
        Inr ''[{"contestId":0,"problemsetName":"","index":"","name":"B","type":"","points":0,"rating":900,"tags":["dp","greedy"]},{"contestId":0,"problemsetName":"","index":"","name":"A","type":"","points":0,"rating":1200,"tags":["dp"]},{"contestId":0,"problemsetName":"","index":"","name":"C","type":"","points":0,"rating":1600,"tags":["dp"]}]''
      else Inl (Error ''json: unsupported value''))\<close>

text \<open>An upstream that answers every request alike, and one that cannot be reached.\<close>

definition answering :: "int \<Rightarrow> string \<Rightarrow> string \<Rightarrow> error + Response" where
  "answering code body url = Inr \<lparr>StatusCode = code, Body = Inr body\<rparr>"

definition unreachable :: "string \<Rightarrow> error + Response" where
  "unreachable url = Inl (Error ''dial tcp: connect: connection refused'')"

definition exampleEnv ::
  "(string \<Rightarrow> error + Response) \<Rightarrow>
   ((Problem \<Rightarrow> Problem \<Rightarrow> bool) \<Rightarrow> Problem list \<Rightarrow> Problem list) \<Rightarrow> Env" where
  "exampleEnv get srt =
     \<lparr>http_Get = get, json_Unmarshal = exampleUnmarshal, sort_Slice = srt,
      json_Marshal = exampleMarshal\<rparr>"

text \<open>
  Thirteen problems, the shortest slice \<open>sort.Slice\<close> does not hand to insertion sort:
  twelve rated 1200, then one rated 800. \<open>tiesSorted\<close> is the order in which the fetch
  returns them.
\<close>

definition rated :: "string \<Rightarrow> int \<Rightarrow> Problem" where
  "rated name rating =
     \<lparr>ContestID = 0, ProblemSetName = [], Index = [], Name = name, Type = [],
      Points = 0, Rating = rating, Tags = []\<rparr>"

definition tiesUpstream :: "Problem list" where
  "tiesUpstream =
     [rated ''P1'' 1200, rated ''P2'' 1200, rated ''P3'' 1200, rated ''P4'' 1200,
      rated ''P5'' 1200, rated ''P6'' 1200, rated ''P7'' 1200, rated ''P8'' 1200,
      rated ''P9'' 1200, rated ''P10'' 1200, rated ''P11'' 1200, rated ''P12'' 1200,
      rated ''P13'' 800]"

definition tiesSorted :: "Problem list" where
  "tiesSorted =
     [rated ''P13'' 800, rated ''P7'' 1200, rated ''P3'' 1200, rated ''P4'' 1200,
      rated ''P5'' 1200, rated ''P6'' 1200, rated ''P1'' 1200, rated ''P8'' 1200,
      rated ''P9'' 1200, rated ''P10'' 1200, rated ''P11'' 1200, rated ''P12'' 1200,
      rated ''P2'' 1200]"

definition bodyTies :: string where
  \<open>bodyTies = ''{"status":"OK","result":{"problems":[{"name":"P1","rating":1200},{"name":"P2","rating":1200},{"name":"P3","rating":1200},{"name":"P4","rating":1200},{"name":"P5","rating":1200},{"name":"P6","rating":1200},{"name":"P7","rating":1200},{"name":"P8","rating":1200},{"name":"P9","rating":1200},{"name":"P10","rating":1200},{"name":"P11","rating":1200},{"name":"P12","rating":1200},{"name":"P13","rating":800}]}}''\<close>

definition tiesUnmarshal :: "string \<Rightarrow> error + CodeforcesResponse" where
  "tiesUnmarshal body =
     (if body = bodyTies then Inr \<lparr>Status = ''OK'', Result = \<lparr>Problems = tiesUpstream\<rparr>\<rparr>
      else Inl (Error ''invalid character < looking for beginning of value''))"

definition tiesEnv :: Env where
  "tiesEnv =
     \<lparr>http_Get = answering 200 bodyTies, json_Unmarshal = tiesUnmarshal,
      sort_Slice = goSlice, json_Marshal = exampleMarshal\<rparr>"

section \<open>The insertion sort meets the contract\<close>

lemma sinkLeft_mset: "mset (sinkLeft lt x pre) = add_mset x (mset pre)"
  by (induction pre) auto

lemma foldl_sinkLeft_mset: "mset (foldl (\<lambda>pre x. sinkLeft lt x pre) acc xs) = mset acc + mset xs"
  by (induction xs arbitrary: acc) (auto simp: sinkLeft_mset)

lemma insertionSort_mset: "mset (insertionSort lt xs) = mset xs"
  by (simp add: insertionSort_def foldl_sinkLeft_mset)

lemma sinkLeft_set: "set (sinkLeft lt x pre) = insert x (set pre)"
  by (induction pre) auto

lemma sinkLeft_sorted:
  assumes "strictWeakOrder lt" "sorted_wrt (\<lambda>a b. \<not> lt a b) pre"
  shows "sorted_wrt (\<lambda>a b. \<not> lt a b) (sinkLeft lt x pre)"
  using assms(2)
proof (induction pre)
  case Nil
  then show ?case by simp
next
  case (Cons y pre)
  have asym: "\<And>a b. lt a b \<Longrightarrow> \<not> lt b a"
    using assms(1) unfolding strictWeakOrder_def by blast
  have negtrans: "\<And>a b c. \<not> lt a b \<Longrightarrow> \<not> lt b c \<Longrightarrow> \<not> lt a c"
    using assms(1) unfolding strictWeakOrder_def by blast
  show ?case
  proof (cases "lt x y")
    case True
    with Cons asym show ?thesis by (auto simp: sinkLeft_set)
  next
    case False
    with Cons negtrans show ?thesis by auto
  qed
qed

lemma foldl_sinkLeft_sorted:
  assumes "strictWeakOrder lt"
  shows "sorted_wrt (\<lambda>a b. \<not> lt a b) acc \<Longrightarrow>
         sorted_wrt (\<lambda>a b. \<not> lt a b) (foldl (\<lambda>pre x. sinkLeft lt x pre) acc xs)"
  by (induction xs arbitrary: acc) (auto simp: sinkLeft_sorted[OF assms])

lemma insertionSort_sorted:
  "strictWeakOrder lt \<Longrightarrow> sorted_wrt (\<lambda>a b. \<not> lt b a) (insertionSort lt xs)"
  using foldl_sinkLeft_sorted[of lt "[]" xs]
  by (simp add: insertionSort_def sorted_wrt_rev)

lemma insertionSort_contract: "sortSliceContract insertionSort"
  by (simp add: sortSliceContract_def insertionSort_mset insertionSort_sorted)

section \<open>Comparing by rating\<close>

lemma byRating_strictWeakOrder: "strictWeakOrder (\<lambda>a b. Rating a < Rating b)"
  by (auto simp: strictWeakOrder_def)

lemma contract_byRating_mset:
  "sortSliceContract srt \<Longrightarrow> mset (srt (\<lambda>a b. Rating a < Rating b) xs) = mset xs"
  using byRating_strictWeakOrder unfolding sortSliceContract_def by blast

lemma contract_byRating_sorted:
  assumes "sortSliceContract srt"
  shows "sorted_wrt (\<lambda>a b. Rating a \<le> Rating b) (srt (\<lambda>a b. Rating a < Rating b) xs)"
proof -
  have "sorted_wrt (\<lambda>a b. \<not> Rating b < Rating a) (srt (\<lambda>a b. Rating a < Rating b) xs)"
    using assms byRating_strictWeakOrder unfolding sortSliceContract_def by blast
  then show ?thesis by (simp add: not_less)
qed

section \<open>The fetch functions, unfolded\<close>

text \<open>The for-range loop with append is a filter.\<close>

lemma retain_loop:
  "foldl (\<lambda>problems problem. if P problem then problems @ [problem] else problems) acc xs
     = acc @ filter P xs"
  by (induction xs arbitrary: acc) auto

text \<open>\<open>strings.Join\<close> does what the spec calls joining.\<close>

lemma strings_Join_joinedWith: "strings_Join elems sep = joinedWith sep elems"
proof -
  have step: "foldl (\<lambda>b s. b @ sep @ s) (acc @ e) rest = acc @ joinedWith sep (e # rest)"
    for acc e rest
  proof (induction rest arbitrary: acc e)
    case Nil
    then show ?case by simp
  next
    case (Cons r rest)
    have "foldl (\<lambda>b s. b @ sep @ s) (acc @ e) (r # rest)
            = foldl (\<lambda>b s. b @ sep @ s) ((acc @ e @ sep) @ r) rest"
      by simp
    also have "\<dots> = (acc @ e @ sep) @ joinedWith sep (r # rest)"
      by (rule Cons.IH)
    finally show ?case by simp
  qed
  show ?thesis
  proof (cases elems)
    case Nil
    then show ?thesis by (simp add: strings_Join_def)
  next
    case (Cons e rest)
    then show ?thesis
      using step[of "[]" e rest] by (cases rest) (simp_all add: strings_Join_def)
  qed
qed

lemma fetchTag_fst:
  "fst (fetchCodeforcesProblemSetWithTag env tag) =
     (case http_Get env (''https://codeforces.com/api/problemset.problems?tags='' @ tag) of
        Inl err \<Rightarrow> Inl err
      | Inr response \<Rightarrow>
          (case Body response of
             Inl err \<Rightarrow> Inl err
           | Inr body \<Rightarrow>
               (case json_Unmarshal env body of
                  Inl err \<Rightarrow> Inl err
                | Inr cr \<Rightarrow>
                    Inr (sort_Slice env (\<lambda>a b. Rating a < Rating b) (Problems (Result cr))))))"
  unfolding fetchCodeforcesProblemSetWithTag_def CODEFORCES_BASE_URL_def
      PROBLEMSET_METHOD_def io_ReadAll_def Let_def by simp

lemma fetchTags_fst:
  "fst (fetchCodeforcesProblemSetWithTags env tags) =
     (case http_Get env (''https://codeforces.com/api/problemset.problems?tags='' @ joinedWith '';'' tags) of
        Inl err \<Rightarrow> Inl err
      | Inr response \<Rightarrow>
          (case Body response of
             Inl err \<Rightarrow> Inl err
           | Inr body \<Rightarrow>
               (case json_Unmarshal env body of
                  Inl err \<Rightarrow> Inl err
                | Inr cr \<Rightarrow>
                    Inr (sort_Slice env (\<lambda>a b. Rating a < Rating b) (Problems (Result cr))))))"
  unfolding fetchCodeforcesProblemSetWithTags_def CODEFORCES_BASE_URL_def
      PROBLEMSET_METHOD_def io_ReadAll_def Let_def strings_Join_joinedWith by simp

lemma fetchTag_snd:
  "snd (fetchCodeforcesProblemSetWithTag env tag) =
     [''https://codeforces.com/api/problemset.problems?tags='' @ tag]"
  by (simp add: fetchCodeforcesProblemSetWithTag_def CODEFORCES_BASE_URL_def
      PROBLEMSET_METHOD_def Let_def)

lemma fetchTags_snd:
  "snd (fetchCodeforcesProblemSetWithTags env tags) =
     [''https://codeforces.com/api/problemset.problems?tags='' @ joinedWith '';'' tags]"
  by (simp add: fetchCodeforcesProblemSetWithTags_def CODEFORCES_BASE_URL_def
      PROBLEMSET_METHOD_def Let_def strings_Join_joinedWith)

lemma fetchTagOnly_fst:
  "fst (fetchCodeforcesProblemSetWithTagOnly env tag) =
     (case fst (fetchCodeforcesProblemSetWithTag env tag) of
        Inl err \<Rightarrow> Inl err
      | Inr allProblems \<Rightarrow> Inr (filter (\<lambda>p. length (Tags p) = 1) allProblems))"
  by (cases "fetchCodeforcesProblemSetWithTag env tag")
     (simp add: fetchCodeforcesProblemSetWithTagOnly_def retain_loop split: sum.splits)

lemma fetchTagsOnly_fst:
  "fst (fetchCodeforcesProblemSetWithTagsOnly env tags) =
     (case fst (fetchCodeforcesProblemSetWithTags env tags) of
        Inl err \<Rightarrow> Inl err
      | Inr allProblems \<Rightarrow> Inr (filter (\<lambda>p. length (Tags p) = length tags) allProblems))"
  by (cases "fetchCodeforcesProblemSetWithTags env tags")
     (simp add: fetchCodeforcesProblemSetWithTagsOnly_def retain_loop split: sum.splits)

lemma fetchTagOnly_snd:
  "snd (fetchCodeforcesProblemSetWithTagOnly env tag) = snd (fetchCodeforcesProblemSetWithTag env tag)"
  by (cases "fetchCodeforcesProblemSetWithTag env tag")
     (simp add: fetchCodeforcesProblemSetWithTagOnly_def split: sum.splits)

lemma fetchTagsOnly_snd:
  "snd (fetchCodeforcesProblemSetWithTagsOnly env tags) = snd (fetchCodeforcesProblemSetWithTags env tags)"
  by (cases "fetchCodeforcesProblemSetWithTags env tags")
     (simp add: fetchCodeforcesProblemSetWithTagsOnly_def split: sum.splits)

lemma fetchTag_Inr:
  assumes "fst (fetchCodeforcesProblemSetWithTag env tag) = Inr result"
  shows "\<exists>response body decoded.
           http_Get env (CODEFORCES_BASE_URL @ PROBLEMSET_METHOD @ ''?tags='' @ tag) = Inr response
           \<and> Body response = Inr body \<and> json_Unmarshal env body = Inr decoded
           \<and> result = sort_Slice env (\<lambda>a b. Rating a < Rating b) (Problems (Result decoded))"
  using assms unfolding fetchTag_fst CODEFORCES_BASE_URL_def PROBLEMSET_METHOD_def
  by (simp split: sum.splits)

lemma fetchTags_Inr:
  assumes "fst (fetchCodeforcesProblemSetWithTags env tags) = Inr result"
  shows "\<exists>response body decoded.
           http_Get env (CODEFORCES_BASE_URL @ PROBLEMSET_METHOD @ ''?tags='' @ joinedWith '';'' tags)
             = Inr response
           \<and> Body response = Inr body \<and> json_Unmarshal env body = Inr decoded
           \<and> result = sort_Slice env (\<lambda>a b. Rating a < Rating b) (Problems (Result decoded))"
  using assms unfolding fetchTags_fst CODEFORCES_BASE_URL_def PROBLEMSET_METHOD_def
  by (simp split: sum.splits)

lemma fetchTagOnly_Inr:
  assumes "fst (fetchCodeforcesProblemSetWithTagOnly env tag) = Inr result"
  shows "\<exists>allProblems. fst (fetchCodeforcesProblemSetWithTag env tag) = Inr allProblems
           \<and> result = filter (\<lambda>p. length (Tags p) = 1) allProblems"
  using assms unfolding fetchTagOnly_fst by (simp split: sum.splits)

lemma fetchTagsOnly_Inr:
  assumes "fst (fetchCodeforcesProblemSetWithTagsOnly env tags) = Inr result"
  shows "\<exists>allProblems. fst (fetchCodeforcesProblemSetWithTags env tags) = Inr allProblems
           \<and> result = filter (\<lambda>p. length (Tags p) = length tags) allProblems"
  using assms unfolding fetchTagsOnly_fst by (simp split: sum.splits)

lemma mset_filter_sub: "mset (filter P xs) \<subseteq># mset xs"
  by simp

section \<open>The handlers, unfolded\<close>

lemma Values_Get_empty:
  "q key = None \<or> q key = Some [[]] \<Longrightarrow> Values_Get q key = []"
  by (auto simp: Values_Get_def)

lemma strings_Split_empty: "strings_Split [] c = [[]]"
  by (simp add: strings_Split_def)

lemmas writer_defs =
  newResponseWriter_def WriteHeader_def Write_def http_Error_def Encode_def
  StatusOK_def StatusInternalServerError_def

lemma problemsByTagHandler_fst:
  "(fst (fetchCodeforcesProblemSetWithTag env (Values_Get (Query r) ''tag'')) = Inl err \<longrightarrow>
      fst (problemsByTagHandler env newResponseWriter r)
        = \<lparr>status = Some 500, written = errorText err @ [CHR 0x0A]\<rparr>)
   \<and> (fst (fetchCodeforcesProblemSetWithTag env (Values_Get (Query r) ''tag'')) = Inr problems
        \<and> json_Marshal env problems = Inr js \<longrightarrow>
      fst (problemsByTagHandler env newResponseWriter r)
        = \<lparr>status = Some 200, written = js @ [CHR 0x0A]\<rparr>)"
  by (cases "fetchCodeforcesProblemSetWithTag env (Values_Get (Query r) ''tag'')")
     (simp add: problemsByTagHandler_def writer_defs split: sum.splits)

lemma problemsByTagsHandler_fst:
  "(fst (fetchCodeforcesProblemSetWithTags env
           (strings_Split (Values_Get (Query r) ''tags'') (CHR '',''))) = Inl err \<longrightarrow>
      fst (problemsByTagsHandler env newResponseWriter r)
        = \<lparr>status = Some 500, written = errorText err @ [CHR 0x0A]\<rparr>)
   \<and> (fst (fetchCodeforcesProblemSetWithTags env
           (strings_Split (Values_Get (Query r) ''tags'') (CHR '',''))) = Inr problems
        \<and> json_Marshal env problems = Inr js \<longrightarrow>
      fst (problemsByTagsHandler env newResponseWriter r)
        = \<lparr>status = Some 200, written = js @ [CHR 0x0A]\<rparr>)"
  by (cases "fetchCodeforcesProblemSetWithTags env
               (strings_Split (Values_Get (Query r) ''tags'') (CHR '',''))")
     (simp add: problemsByTagsHandler_def writer_defs split: sum.splits)

lemma problemsByTagOnlyHandler_fst:
  "(fst (fetchCodeforcesProblemSetWithTagOnly env (Values_Get (Query r) ''tag'')) = Inl err \<longrightarrow>
      fst (problemsByTagOnlyHandler env newResponseWriter r)
        = \<lparr>status = Some 500, written = errorText err @ [CHR 0x0A]\<rparr>)
   \<and> (fst (fetchCodeforcesProblemSetWithTagOnly env (Values_Get (Query r) ''tag'')) = Inr problems
        \<and> json_Marshal env problems = Inr js \<longrightarrow>
      fst (problemsByTagOnlyHandler env newResponseWriter r)
        = \<lparr>status = Some 200, written = js @ [CHR 0x0A]\<rparr>)"
  by (cases "fetchCodeforcesProblemSetWithTagOnly env (Values_Get (Query r) ''tag'')")
     (simp add: problemsByTagOnlyHandler_def writer_defs split: sum.splits)

lemma problemsByTagsOnlyHandler_fst:
  "(fst (fetchCodeforcesProblemSetWithTagsOnly env
           (strings_Split (Values_Get (Query r) ''tags'') (CHR '',''))) = Inl err \<longrightarrow>
      fst (problemsByTagsOnlyHandler env newResponseWriter r)
        = \<lparr>status = Some 500, written = errorText err @ [CHR 0x0A]\<rparr>)
   \<and> (fst (fetchCodeforcesProblemSetWithTagsOnly env
           (strings_Split (Values_Get (Query r) ''tags'') (CHR '',''))) = Inr problems
        \<and> json_Marshal env problems = Inr js \<longrightarrow>
      fst (problemsByTagsOnlyHandler env newResponseWriter r)
        = \<lparr>status = Some 200, written = js @ [CHR 0x0A]\<rparr>)"
  by (cases "fetchCodeforcesProblemSetWithTagsOnly env
               (strings_Split (Values_Get (Query r) ''tags'') (CHR '',''))")
     (simp add: problemsByTagsOnlyHandler_def writer_defs split: sum.splits)

lemma problemsByTagHandler_snd:
  "snd (problemsByTagHandler env w r)
     = snd (fetchCodeforcesProblemSetWithTag env (Values_Get (Query r) ''tag''))"
  by (cases "fetchCodeforcesProblemSetWithTag env (Values_Get (Query r) ''tag'')")
     (simp add: problemsByTagHandler_def split: sum.splits prod.splits option.splits)

lemma problemsByTagsHandler_snd:
  "snd (problemsByTagsHandler env w r)
     = snd (fetchCodeforcesProblemSetWithTags env
              (strings_Split (Values_Get (Query r) ''tags'') (CHR '','')))"
  by (cases "fetchCodeforcesProblemSetWithTags env
               (strings_Split (Values_Get (Query r) ''tags'') (CHR '',''))")
     (simp add: problemsByTagsHandler_def split: sum.splits prod.splits option.splits)

lemma problemsByTagOnlyHandler_snd:
  "snd (problemsByTagOnlyHandler env w r)
     = snd (fetchCodeforcesProblemSetWithTagOnly env (Values_Get (Query r) ''tag''))"
  by (cases "fetchCodeforcesProblemSetWithTagOnly env (Values_Get (Query r) ''tag'')")
     (simp add: problemsByTagOnlyHandler_def split: sum.splits prod.splits option.splits)

lemma problemsByTagsOnlyHandler_snd:
  "snd (problemsByTagsOnlyHandler env w r)
     = snd (fetchCodeforcesProblemSetWithTagsOnly env
              (strings_Split (Values_Get (Query r) ''tags'') (CHR '','')))"
  by (cases "fetchCodeforcesProblemSetWithTagsOnly env
               (strings_Split (Values_Get (Query r) ''tags'') (CHR '',''))")
     (simp add: problemsByTagsOnlyHandler_def split: sum.splits prod.splits option.splits)

section \<open>Unfolding the examples\<close>

lemmas example_defs =
  exampleEnv_def answering_def unreachable_def exampleUnmarshal_def exampleMarshal_def
  bodyABC_def bodyAD_def bodyFailed_def insertionSort_def
  problemA_def problemB_def problemC_def problemD_def

section \<open>The claims\<close>

text \<open>
  C1. Every successful fetch, single-tag or multi-tag, returns its problems sorted by
  rating ascending: for all indices \<open>i < j\<close> of the result,
  \<open>result[i].rating \<le> result[j].rating\<close>. The one thing taken on trust is that
  \<open>sort.Slice\<close> does what its documentation says.
\<close>

theorem fetch_sorted_by_rating:
  assumes "sortSliceContract (sort_Slice env)"
    and "fst (fetchCodeforcesProblemSetWithTag env tag) = Inr result
         \<or> fst (fetchCodeforcesProblemSetWithTags env tags) = Inr result"
  shows "\<forall>i j. i < j \<and> j < length result \<longrightarrow> Rating (result ! i) \<le> Rating (result ! j)"
proof -
  obtain xs where "result = sort_Slice env (\<lambda>a b. Rating a < Rating b) xs"
    using assms(2) by (auto simp: fetchTag_fst fetchTags_fst split: sum.splits)
  then have "sorted_wrt (\<lambda>a b. Rating a \<le> Rating b) result"
    using contract_byRating_sorted[OF assms(1)] by simp
  then show ?thesis
    by (auto simp: sorted_wrt_iff_nth_less)
qed

text \<open>
  The spec's scenario: the upstream lists ratings 1200, 900, 1600 and the fetch returns
  900, 1200, 1600.
\<close>

theorem fetch_sorted_by_rating_witness:
  "fst (fetchCodeforcesProblemSetWithTag
          (exampleEnv (answering 200 (bodyABC ''OK'')) insertionSort) ''dp'')
     = Inr [problemB, problemA, problemC]
   \<and> Rating ([problemB, problemA, problemC] ! 0) \<le> Rating ([problemB, problemA, problemC] ! 2)"
proof -
  let ?env = "exampleEnv (answering 200 (bodyABC ''OK'')) insertionSort"
  have c: "sortSliceContract (sort_Slice ?env)"
    by (simp add: exampleEnv_def insertionSort_contract)
  have f: "fst (fetchCodeforcesProblemSetWithTag ?env ''dp'') = Inr [problemB, problemA, problemC]"
    by (simp add: fetchTag_fst exampleEnv_def answering_def exampleUnmarshal_def bodyABC_def
        insertionSort_def problemA_def problemB_def problemC_def)
  have "(0::nat) < 2 \<and> 2 < length [problemB, problemA, problemC]" by simp
  with fetch_sorted_by_rating[OF c disjI1[OF f]] f show ?thesis by blast
qed

text \<open>
  C2. For a requested tag list of size \<open>k\<close>, the exact-match fetch retains exactly the
  problems of the plain fetch whose tag collection has \<open>k\<close> elements (\<open>k = 1\<close> for the
  single-tag variant), and fails exactly when the plain fetch fails. The test reads the
  number of requested tags only, never the tags themselves.
\<close>

theorem only_retains_by_tag_count:
  "fst (fetchCodeforcesProblemSetWithTagsOnly env tags)
     = map_sum id (filter (\<lambda>p. length (Tags p) = length tags))
         (fst (fetchCodeforcesProblemSetWithTags env tags))
   \<and> fst (fetchCodeforcesProblemSetWithTagOnly env tag)
     = map_sum id (filter (\<lambda>p. length (Tags p) = 1))
         (fst (fetchCodeforcesProblemSetWithTag env tag))"
  by (simp add: fetchTagOnly_fst fetchTagsOnly_fst split: sum.splits)

text \<open>
  C3 as the spec has it: on a transport failure or on a response with a status code
  outside 2xx the fetch fails. The second half does not hold. The fetch never looks at
  the status code: a 400 whose body is the upstream's JSON failure report decodes (to no
  problems at all) and the fetch succeeds with the empty list; a 500 carrying a problem
  list succeeds with that list.
\<close>

theorem non2xx_counterexample:
  "fst (fetchCodeforcesProblemSetWithTag
          (exampleEnv (answering 400 bodyFailed) insertionSort) ''dp'')
     = Inr []
   \<and> fst (fetchCodeforcesProblemSetWithTags
            (exampleEnv (answering 500 (bodyABC ''FAILED'')) insertionSort) [''dp'', ''greedy''])
     = Inr [problemB, problemA, problemC]"
  by (simp add: fetchTag_fst fetchTags_fst example_defs)

text \<open>
  C3, amended. The fetch fails with the very error it was handed when \<open>http.Get\<close> fails
  (transport), when reading the body fails, or when the body does not decode. In every
  other case it succeeds, whatever the status code of the response.
\<close>

theorem fetch_error_propagation:
  assumes "url = CODEFORCES_BASE_URL @ PROBLEMSET_METHOD @ ''?tags='' @ tag
           \<and> fetched = fst (fetchCodeforcesProblemSetWithTag env tag)
         \<or> url = CODEFORCES_BASE_URL @ PROBLEMSET_METHOD @ ''?tags='' @ joinedWith '';'' tags
           \<and> fetched = fst (fetchCodeforcesProblemSetWithTags env tags)"
  shows "(http_Get env url = Inl err \<longrightarrow> fetched = Inl err)
       \<and> (http_Get env url = Inr response \<and> Body response = Inl err \<longrightarrow> fetched = Inl err)
       \<and> (http_Get env url = Inr response \<and> Body response = Inr body
            \<and> json_Unmarshal env body = Inl err \<longrightarrow> fetched = Inl err)
       \<and> (http_Get env url = Inr response \<and> Body response = Inr body
            \<and> json_Unmarshal env body = Inr decoded \<longrightarrow> (\<exists>problems. fetched = Inr problems))"
  using assms
  by (auto simp: fetchTag_fst fetchTags_fst CODEFORCES_BASE_URL_def PROBLEMSET_METHOD_def)

theorem fetch_error_propagation_witness:
  "fst (fetchCodeforcesProblemSetWithTag (exampleEnv unreachable insertionSort) ''dp'')
     = Inl (Error ''dial tcp: connect: connection refused'')
   \<and> fst (fetchCodeforcesProblemSetWithTag
            (exampleEnv (answering 404 ''<html>'') insertionSort) ''dp'')
     = Inl (Error ''invalid character < looking for beginning of value'')
   \<and> (\<exists>problems. fst (fetchCodeforcesProblemSetWithTag
            (exampleEnv (answering 400 bodyFailed) insertionSort) ''dp'') = Inr problems)"
proof -
  let ?url = "CODEFORCES_BASE_URL @ PROBLEMSET_METHOD @ ''?tags='' @ ''dp''"
  let ?down = "exampleEnv unreachable insertionSort"
  let ?page = "exampleEnv (answering 404 ''<html>'') insertionSort"
  let ?failed = "exampleEnv (answering 400 bodyFailed) insertionSort"
  have 1: "http_Get ?down ?url = Inl (Error ''dial tcp: connect: connection refused'')"
    by (simp add: exampleEnv_def unreachable_def)
  have 2: "http_Get ?page ?url = Inr \<lparr>StatusCode = 404, Body = Inr ''<html>''\<rparr>
           \<and> Body \<lparr>StatusCode = 404, Body = Inr ''<html>''\<rparr> = Inr ''<html>''
           \<and> json_Unmarshal ?page ''<html>''
               = Inl (Error ''invalid character < looking for beginning of value'')"
    by (simp add: example_defs)
  have 3: "http_Get ?failed ?url = Inr \<lparr>StatusCode = 400, Body = Inr bodyFailed\<rparr>
           \<and> Body \<lparr>StatusCode = 400, Body = Inr bodyFailed\<rparr> = Inr bodyFailed
           \<and> json_Unmarshal ?failed bodyFailed
               = Inr \<lparr>Status = ''FAILED'', Result = \<lparr>Problems = []\<rparr>\<rparr>"
    by (simp add: example_defs)
  show ?thesis
    using 1 2 3
      fetch_error_propagation[of ?url "''dp''" "fst (fetchCodeforcesProblemSetWithTag ?down ''dp'')"
        ?down]
      fetch_error_propagation[of ?url "''dp''" "fst (fetchCodeforcesProblemSetWithTag ?page ''dp'')"
        ?page]
      fetch_error_propagation[of ?url "''dp''" "fst (fetchCodeforcesProblemSetWithTag ?failed ''dp'')"
        ?failed]
    by blast
qed

text \<open>
  C4 as the spec has it: problems of equal rating keep their upstream order. That needs a
  stable sort, and \<open>sort.Slice\<close> is documented not to be one. On thirteen problems, the
  first twelve rated 1200 and the last rated 800, the quicksort behind \<open>sort.Slice\<close>
  picks P7 as pivot and swaps it to the front, then swaps P2 with P13: the twelve ties
  come back in the order P7, P3, P4, P5, P6, P1, P8, ..., P12, P2.
\<close>

theorem stable_ties_counterexample:
  "sort_Slice_pdqsort (\<lambda>a b. Rating a < Rating b) tiesUpstream = Some tiesSorted
   \<and> json_Unmarshal tiesEnv bodyTies
       = Inr \<lparr>Status = ''OK'', Result = \<lparr>Problems = tiesUpstream\<rparr>\<rparr>
   \<and> fst (fetchCodeforcesProblemSetWithTag tiesEnv ''dp'') = Inr tiesSorted
   \<and> map Name (filter (\<lambda>p. Rating p = 1200) tiesUpstream)
       = [''P1'', ''P2'', ''P3'', ''P4'', ''P5'', ''P6'', ''P7'', ''P8'', ''P9'', ''P10'',
          ''P11'', ''P12'']
   \<and> map Name (filter (\<lambda>p. Rating p = 1200) tiesSorted)
       = [''P7'', ''P3'', ''P4'', ''P5'', ''P6'', ''P1'', ''P8'', ''P9'', ''P10'', ''P11'',
          ''P12'', ''P2'']
   \<and> filter (\<lambda>p. Rating p = 1200) tiesSorted \<noteq> filter (\<lambda>p. Rating p = 1200) tiesUpstream"
proof -
  have run: "sort_Slice_pdqsort (\<lambda>a b. Rating a < Rating b) tiesUpstream = Some tiesSorted"
    by code_simp
  have decoded: "json_Unmarshal tiesEnv bodyTies
       = Inr \<lparr>Status = ''OK'', Result = \<lparr>Problems = tiesUpstream\<rparr>\<rparr>"
    by (simp add: tiesEnv_def tiesUnmarshal_def)
  have fetched: "fst (fetchCodeforcesProblemSetWithTag tiesEnv ''dp'') = Inr tiesSorted"
    using run by (simp add: fetchTag_fst tiesEnv_def tiesUnmarshal_def answering_def goSlice_def)
  have upstream: "map Name (filter (\<lambda>p. Rating p = 1200) tiesUpstream)
       = [''P1'', ''P2'', ''P3'', ''P4'', ''P5'', ''P6'', ''P7'', ''P8'', ''P9'', ''P10'',
          ''P11'', ''P12'']"
    by (simp add: tiesUpstream_def rated_def)
  have returned: "map Name (filter (\<lambda>p. Rating p = 1200) tiesSorted)
       = [''P7'', ''P3'', ''P4'', ''P5'', ''P6'', ''P1'', ''P8'', ''P9'', ''P10'', ''P11'',
          ''P12'', ''P2'']"
    by (simp add: tiesSorted_def rated_def)
  have "filter (\<lambda>p. Rating p = 1200) tiesSorted \<noteq> filter (\<lambda>p. Rating p = 1200) tiesUpstream"
    using upstream returned by auto
  with run decoded fetched upstream returned show ?thesis by blast
qed

text \<open>
  C4, amended. Ties are kept but not their order: for every rating, the problems of that
  rating in the result are those of the upstream list, each as often as it occurs there.
\<close>

theorem ties_kept_in_some_order:
  assumes "sortSliceContract (sort_Slice env)"
    and "url = CODEFORCES_BASE_URL @ PROBLEMSET_METHOD @ ''?tags='' @ tag
           \<and> fetched = fst (fetchCodeforcesProblemSetWithTag env tag)
         \<or> url = CODEFORCES_BASE_URL @ PROBLEMSET_METHOD @ ''?tags='' @ joinedWith '';'' tags
           \<and> fetched = fst (fetchCodeforcesProblemSetWithTags env tags)"
    and "http_Get env url = Inr response" "Body response = Inr body"
    and "json_Unmarshal env body = Inr decoded"
  shows "\<exists>result. fetched = Inr result
           \<and> mset (filter (\<lambda>p. Rating p = rating) result)
               = mset (filter (\<lambda>p. Rating p = rating) (Problems (Result decoded)))"
proof -
  have "fetched = Inr (sort_Slice env (\<lambda>a b. Rating a < Rating b) (Problems (Result decoded)))"
    using assms(2-5)
    by (auto simp: fetchTag_fst fetchTags_fst CODEFORCES_BASE_URL_def PROBLEMSET_METHOD_def)
  then show ?thesis
    by (simp add: contract_byRating_mset[OF assms(1)])
qed

theorem ties_kept_in_some_order_witness:
  "\<exists>result. fst (fetchCodeforcesProblemSetWithTag
                   (exampleEnv (answering 200 bodyAD) insertionSort) ''dp'') = Inr result
     \<and> mset (filter (\<lambda>p. Rating p = 1200) result) = {#problemA, problemD#}"
proof -
  let ?env = "exampleEnv (answering 200 bodyAD) insertionSort"
  let ?url = "CODEFORCES_BASE_URL @ PROBLEMSET_METHOD @ ''?tags='' @ ''dp''"
  have c: "sortSliceContract (sort_Slice ?env)"
    by (simp add: exampleEnv_def insertionSort_contract)
  have g: "http_Get ?env ?url = Inr \<lparr>StatusCode = 200, Body = Inr bodyAD\<rparr>"
    by (simp add: exampleEnv_def answering_def)
  have b: "Body \<lparr>StatusCode = 200, Body = Inr bodyAD\<rparr> = Inr bodyAD"
    by simp
  have u: "json_Unmarshal ?env bodyAD
             = Inr \<lparr>Status = ''OK'', Result = \<lparr>Problems = [problemA, problemD]\<rparr>\<rparr>"
    by (simp add: example_defs)
  have m: "mset (filter (\<lambda>p. Rating p = 1200)
                   (Problems (Result \<lparr>Status = ''OK'', Result = \<lparr>Problems = [problemA, problemD]\<rparr>\<rparr>)))
             = {#problemA, problemD#}"
    by (simp add: problemA_def problemD_def)
  show ?thesis
    using ties_kept_in_some_order[OF c _ g b u, of "''dp''"
        "fst (fetchCodeforcesProblemSetWithTag ?env ''dp'')" "[]" 1200] m
    by simp
qed

text \<open>
  C5. Each fetch makes one upstream request. Its URL is the base URL, the problemset
  method, \<open>?tags=\<close> and then the tag, or the tags joined with \<open>;\<close>; this holds for
  every input, the empty string included. A \<open>tag\<close> or \<open>tags\<close> parameter that is absent or
  empty reaches the upstream as the empty value \<open>?tags=\<close>, through each of the four
  handlers.
\<close>

theorem upstream_request_url:
  "snd (fetchCodeforcesProblemSetWithTag env tag)
     = [CODEFORCES_BASE_URL @ PROBLEMSET_METHOD @ ''?tags='' @ tag]
   \<and> snd (fetchCodeforcesProblemSetWithTagOnly env tag)
     = [CODEFORCES_BASE_URL @ PROBLEMSET_METHOD @ ''?tags='' @ tag]
   \<and> snd (fetchCodeforcesProblemSetWithTags env tags)
     = [CODEFORCES_BASE_URL @ PROBLEMSET_METHOD @ ''?tags='' @ joinedWith '';'' tags]
   \<and> snd (fetchCodeforcesProblemSetWithTagsOnly env tags)
     = [CODEFORCES_BASE_URL @ PROBLEMSET_METHOD @ ''?tags='' @ joinedWith '';'' tags]
   \<and> (Query r ''tag'' = None \<or> Query r ''tag'' = Some [[]] \<longrightarrow>
        snd (problemsByTagHandler env w r)
          = [''https://codeforces.com/api/problemset.problems?tags='']
        \<and> snd (problemsByTagOnlyHandler env w r)
          = [''https://codeforces.com/api/problemset.problems?tags=''])
   \<and> (Query r ''tags'' = None \<or> Query r ''tags'' = Some [[]] \<longrightarrow>
        snd (problemsByTagsHandler env w r)
          = [''https://codeforces.com/api/problemset.problems?tags='']
        \<and> snd (problemsByTagsOnlyHandler env w r)
          = [''https://codeforces.com/api/problemset.problems?tags=''])"
proof -
  have single: "Query r ''tag'' = None \<or> Query r ''tag'' = Some [[]] \<Longrightarrow>
        snd (problemsByTagHandler env w r)
          = [''https://codeforces.com/api/problemset.problems?tags='']
        \<and> snd (problemsByTagOnlyHandler env w r)
          = [''https://codeforces.com/api/problemset.problems?tags='']"
    by (simp add: problemsByTagHandler_snd problemsByTagOnlyHandler_snd fetchTagOnly_snd
        fetchTag_snd Values_Get_empty)
  have multi: "Query r ''tags'' = None \<or> Query r ''tags'' = Some [[]] \<Longrightarrow>
        snd (problemsByTagsHandler env w r)
          = [''https://codeforces.com/api/problemset.problems?tags='']
        \<and> snd (problemsByTagsOnlyHandler env w r)
          = [''https://codeforces.com/api/problemset.problems?tags='']"
    by (simp add: problemsByTagsHandler_snd problemsByTagsOnlyHandler_snd fetchTagsOnly_snd
        fetchTags_snd Values_Get_empty strings_Split_empty)
  show ?thesis
    using single multi
    by (simp add: CODEFORCES_BASE_URL_def PROBLEMSET_METHOD_def
        fetchTag_snd fetchTags_snd fetchTagOnly_snd fetchTagsOnly_snd)
qed

theorem upstream_request_url_witness:
  "snd (problemsByTagHandler (exampleEnv unreachable insertionSort) newResponseWriter
          \<lparr>Method = ''GET'', Path = ''/problems'', Query = [''tag'' \<mapsto> [[]]]\<rparr>)
     = [''https://codeforces.com/api/problemset.problems?tags='']
   \<and> snd (problemsByTagsOnlyHandler (exampleEnv unreachable insertionSort) newResponseWriter
          \<lparr>Method = ''GET'', Path = ''/problems/multi/only'', Query = Map.empty\<rparr>)
     = [''https://codeforces.com/api/problemset.problems?tags='']"
proof -
  let ?env = "exampleEnv unreachable insertionSort"
  let ?r1 = "\<lparr>Method = ''GET'', Path = ''/problems'', Query = [''tag'' \<mapsto> [[]]]\<rparr>"
  let ?r2 = "\<lparr>Method = ''GET'', Path = ''/problems/multi/only'', Query = Map.empty\<rparr>"
  have 1: "Query ?r1 ''tag'' = None \<or> Query ?r1 ''tag'' = Some [[]]" by simp
  have 2: "Query ?r2 ''tags'' = None \<or> Query ?r2 ''tags'' = Some [[]]" by simp
  show ?thesis
    using 1 2 upstream_request_url[of ?env _ _ ?r1 newResponseWriter]
      upstream_request_url[of ?env _ _ ?r2 newResponseWriter]
    by blast
qed

text \<open>
  C6. The exact-match fetch filters what the plain fetch has already sorted, and the
  filter keeps the order: whenever an exact-match fetch succeeds, the plain fetch
  succeeded with a list sorted by rating, and the result is a subsequence of that list
  and itself sorted by rating.
\<close>

theorem only_sorted_subsequence:
  assumes "sortSliceContract (sort_Slice env)"
    and "fetchedOnly = fst (fetchCodeforcesProblemSetWithTagOnly env tag)
           \<and> fetched = fst (fetchCodeforcesProblemSetWithTag env tag)
         \<or> fetchedOnly = fst (fetchCodeforcesProblemSetWithTagsOnly env tags)
           \<and> fetched = fst (fetchCodeforcesProblemSetWithTags env tags)"
    and "fetchedOnly = Inr result"
  shows "\<exists>allProblems. fetched = Inr allProblems
           \<and> sorted_wrt (\<lambda>a b. Rating a \<le> Rating b) allProblems
           \<and> subseq result allProblems
           \<and> sorted_wrt (\<lambda>a b. Rating a \<le> Rating b) result"
proof -
  obtain allProblems k where a: "fetched = Inr allProblems"
    and r: "result = filter (\<lambda>p. length (Tags p) = k) allProblems"
    using assms(2,3) by (auto simp: fetchTagOnly_fst fetchTagsOnly_fst split: sum.splits)
  have "\<exists>xs. allProblems = sort_Slice env (\<lambda>a b. Rating a < Rating b) xs"
    using assms(2) a by (auto simp: fetchTag_fst fetchTags_fst split: sum.splits)
  then have s: "sorted_wrt (\<lambda>a b. Rating a \<le> Rating b) allProblems"
    using contract_byRating_sorted[OF assms(1)] by auto
  have "subseq result allProblems"
    by (simp add: r)
  moreover have "sorted_wrt (\<lambda>a b. Rating a \<le> Rating b) result"
    using s by (simp add: r sorted_wrt_filter)
  ultimately show ?thesis using a s by blast
qed

text \<open>
  The spec's scenario: tag counts 1, 2, 1 upstream; the two single-tag problems remain,
  sorted by rating.
\<close>

theorem only_sorted_subsequence_witness:
  "fst (fetchCodeforcesProblemSetWithTagOnly
          (exampleEnv (answering 200 (bodyABC ''OK'')) insertionSort) ''dp'')
     = Inr [problemA, problemC]
   \<and> fst (fetchCodeforcesProblemSetWithTag
          (exampleEnv (answering 200 (bodyABC ''OK'')) insertionSort) ''dp'')
     = Inr [problemB, problemA, problemC]
   \<and> subseq [problemA, problemC] [problemB, problemA, problemC]
   \<and> sorted_wrt (\<lambda>a b. Rating a \<le> Rating b) [problemA, problemC]"
proof -
  let ?env = "exampleEnv (answering 200 (bodyABC ''OK'')) insertionSort"
  have c: "sortSliceContract (sort_Slice ?env)"
    by (simp add: exampleEnv_def insertionSort_contract)
  have o: "fst (fetchCodeforcesProblemSetWithTagOnly ?env ''dp'') = Inr [problemA, problemC]"
    by (simp add: fetchTagOnly_fst fetchTag_fst example_defs)
  have f: "fst (fetchCodeforcesProblemSetWithTag ?env ''dp'') = Inr [problemB, problemA, problemC]"
    by (simp add: fetchTag_fst example_defs)
  show ?thesis
    using only_sorted_subsequence[OF c _ o,
        where fetched = "fst (fetchCodeforcesProblemSetWithTag ?env ''dp'')" and tag = "''dp''"
          and tags = "[]"]
      o f
    by auto
qed

text \<open>
  C7. Each of the four problems handlers, started on a fresh writer: if its fetch (which
  includes the JSON decoding) returns an error, the response has status 500 and the
  error's text as its body, ended by the line feed \<open>http.Error\<close> appends; if the fetch
  succeeds and the problems encode to the JSON text \<open>js\<close>, the response has status 200
  and body \<open>js\<close>, ended by the line feed the encoder appends.
\<close>

theorem handler_status_and_body:
  assumes "response = fst (problemsByTagHandler env newResponseWriter r)
           \<and> fetched = fst (fetchCodeforcesProblemSetWithTag env (Values_Get (Query r) ''tag''))
         \<or> response = fst (problemsByTagsHandler env newResponseWriter r)
           \<and> fetched = fst (fetchCodeforcesProblemSetWithTags env
                               (strings_Split (Values_Get (Query r) ''tags'') (CHR '','')))
         \<or> response = fst (problemsByTagOnlyHandler env newResponseWriter r)
           \<and> fetched = fst (fetchCodeforcesProblemSetWithTagOnly env (Values_Get (Query r) ''tag''))
         \<or> response = fst (problemsByTagsOnlyHandler env newResponseWriter r)
           \<and> fetched = fst (fetchCodeforcesProblemSetWithTagsOnly env
                               (strings_Split (Values_Get (Query r) ''tags'') (CHR '','')))"
  shows "(fetched = Inl err \<longrightarrow>
            response = \<lparr>status = Some 500, written = errorText err @ [CHR 0x0A]\<rparr>)
       \<and> (fetched = Inr problems \<and> json_Marshal env problems = Inr js \<longrightarrow>
            response = \<lparr>status = Some 200, written = js @ [CHR 0x0A]\<rparr>)"
  using assms
    problemsByTagHandler_fst[of env r err problems js]
    problemsByTagsHandler_fst[of env r err problems js]
    problemsByTagOnlyHandler_fst[of env r err problems js]
    problemsByTagsOnlyHandler_fst[of env r err problems js]
  by (elim disjE conjE) simp_all

theorem handler_status_and_body_witness:
  "fst (problemsByTagHandler (exampleEnv unreachable insertionSort) newResponseWriter
          \<lparr>Method = ''GET'', Path = ''/problems'', Query = [''tag'' \<mapsto> [''dp'']]\<rparr>)
     = \<lparr>status = Some 500, written = ''dial tcp: connect: connection refused'' @ [CHR 0x0A]\<rparr>
   \<and> (\<exists>js. json_Marshal (exampleEnv (answering 200 (bodyABC ''OK'')) insertionSort)
               [problemB, problemA, problemC] = Inr js
         \<and> fst (problemsByTagHandler (exampleEnv (answering 200 (bodyABC ''OK'')) insertionSort)
                  newResponseWriter
                  \<lparr>Method = ''GET'', Path = ''/problems'', Query = [''tag'' \<mapsto> [''dp'']]\<rparr>)
             = \<lparr>status = Some 200, written = js @ [CHR 0x0A]\<rparr>)"
proof -
  let ?down = "exampleEnv unreachable insertionSort"
  let ?up = "exampleEnv (answering 200 (bodyABC ''OK'')) insertionSort"
  let ?r = "\<lparr>Method = ''GET'', Path = ''/problems'', Query = [''tag'' \<mapsto> [''dp'']]\<rparr>"
  have t: "Values_Get (Query ?r) ''tag'' = ''dp''"
    by (simp add: Values_Get_def)
  have 1: "fst (fetchCodeforcesProblemSetWithTag ?down (Values_Get (Query ?r) ''tag''))
             = Inl (Error ''dial tcp: connect: connection refused'')"
    unfolding t by (simp add: fetchTag_fst example_defs)
  have 2: "fst (fetchCodeforcesProblemSetWithTag ?up (Values_Get (Query ?r) ''tag''))
             = Inr [problemB, problemA, problemC]"
    unfolding t by (simp add: fetchTag_fst example_defs)
  obtain js where 3: "json_Marshal ?up [problemB, problemA, problemC] = Inr js"
    by (simp add: exampleEnv_def exampleMarshal_def)
  have a: "fst (problemsByTagHandler ?down newResponseWriter ?r)
     = \<lparr>status = Some 500, written = ''dial tcp: connect: connection refused'' @ [CHR 0x0A]\<rparr>"
    using 1 handler_status_and_body[where env = ?down and r = ?r
        and response = "fst (problemsByTagHandler ?down newResponseWriter ?r)"
        and fetched = "fst (fetchCodeforcesProblemSetWithTag ?down (Values_Get (Query ?r) ''tag''))"
        and err = "Error ''dial tcp: connect: connection refused''"]
    by simp
  have b: "fst (problemsByTagHandler ?up newResponseWriter ?r)
             = \<lparr>status = Some 200, written = js @ [CHR 0x0A]\<rparr>"
    using 2 3 handler_status_and_body[where env = ?up and r = ?r
        and response = "fst (problemsByTagHandler ?up newResponseWriter ?r)"
        and fetched = "fst (fetchCodeforcesProblemSetWithTag ?up (Values_Get (Query ?r) ''tag''))"
        and problems = "[problemB, problemA, problemC]" and js = js]
    by simp
  show ?thesis using a b 3 by blast
qed

text \<open>
  C8. The \<open>status\<close> field of the envelope is decoded and never read. Take two bodies
  that decode to envelopes with the same \<open>result\<close> (so they differ in \<open>status\<close> at most),
  served under the same status code: each of the four fetch operations succeeds on both,
  with the same problem list.
\<close>

theorem status_field_not_checked:
  assumes "json_Unmarshal env body1 = Inr decoded1"
    and "json_Unmarshal env body2 = Inr decoded2"
    and "Result decoded1 = Result decoded2"
    and "env1 = env\<lparr>http_Get := \<lambda>url. Inr \<lparr>StatusCode = code, Body = Inr body1\<rparr>\<rparr>"
    and "env2 = env\<lparr>http_Get := \<lambda>url. Inr \<lparr>StatusCode = code, Body = Inr body2\<rparr>\<rparr>"
  shows "(\<exists>problems. fst (fetchCodeforcesProblemSetWithTag env1 tag) = Inr problems
            \<and> fst (fetchCodeforcesProblemSetWithTag env2 tag) = Inr problems)
       \<and> (\<exists>problems. fst (fetchCodeforcesProblemSetWithTagOnly env1 tag) = Inr problems
            \<and> fst (fetchCodeforcesProblemSetWithTagOnly env2 tag) = Inr problems)
       \<and> (\<exists>problems. fst (fetchCodeforcesProblemSetWithTags env1 tags) = Inr problems
            \<and> fst (fetchCodeforcesProblemSetWithTags env2 tags) = Inr problems)
       \<and> (\<exists>problems. fst (fetchCodeforcesProblemSetWithTagsOnly env1 tags) = Inr problems
            \<and> fst (fetchCodeforcesProblemSetWithTagsOnly env2 tags) = Inr problems)"
  using assms
  by (simp add: fetchTag_fst fetchTags_fst fetchTagOnly_fst fetchTagsOnly_fst)

theorem status_field_not_checked_witness:
  "Status \<lparr>Status = ''OK'', Result = \<lparr>Problems = [problemA, problemB, problemC]\<rparr>\<rparr>
     \<noteq> Status \<lparr>Status = ''FAILED'', Result = \<lparr>Problems = [problemA, problemB, problemC]\<rparr>\<rparr>
   \<and> (\<exists>problems.
         fst (fetchCodeforcesProblemSetWithTag
                (exampleEnv (answering 200 (bodyABC ''OK'')) insertionSort) ''dp'') = Inr problems
         \<and> fst (fetchCodeforcesProblemSetWithTag
                (exampleEnv (answering 200 (bodyABC ''FAILED'')) insertionSort) ''dp'') = Inr problems)"
proof -
  let ?env = "exampleEnv unreachable insertionSort"
  have 1: "json_Unmarshal ?env (bodyABC ''OK'')
             = Inr \<lparr>Status = ''OK'', Result = \<lparr>Problems = [problemA, problemB, problemC]\<rparr>\<rparr>"
    by (simp add: example_defs)
  have 2: "json_Unmarshal ?env (bodyABC ''FAILED'')
             = Inr \<lparr>Status = ''FAILED'', Result = \<lparr>Problems = [problemA, problemB, problemC]\<rparr>\<rparr>"
    by (simp add: example_defs)
  have 3: "Result \<lparr>Status = ''OK'', Result = \<lparr>Problems = [problemA, problemB, problemC]\<rparr>\<rparr>
             = Result \<lparr>Status = ''FAILED'', Result = \<lparr>Problems = [problemA, problemB, problemC]\<rparr>\<rparr>"
    by simp
  have 4: "exampleEnv (answering 200 (bodyABC ''OK'')) insertionSort
             = ?env\<lparr>http_Get := \<lambda>url. Inr \<lparr>StatusCode = 200, Body = Inr (bodyABC ''OK'')\<rparr>\<rparr>"
    by (simp add: exampleEnv_def answering_def fun_eq_iff)
  have 5: "exampleEnv (answering 200 (bodyABC ''FAILED'')) insertionSort
             = ?env\<lparr>http_Get := \<lambda>url. Inr \<lparr>StatusCode = 200, Body = Inr (bodyABC ''FAILED'')\<rparr>\<rparr>"
    by (simp add: exampleEnv_def answering_def fun_eq_iff)
  show ?thesis
    using status_field_not_checked[OF 1 2 3 4 5, of "''dp''" "[]"]
    by simp
qed

text \<open>
  C9. Every request whose path is \<open>/health\<close> is answered with status 200 and body
  \<open>ok\<close>, without any upstream request: whatever the rest of the request, and whatever
  the upstream, the decoder, the sort and the encoder would do.
\<close>

theorem health_always_ok:
  "Path r = ''/health'' \<Longrightarrow>
     ServeHTTP env newResponseWriter r = Some (\<lparr>status = Some 200, written = ''ok''\<rparr>, [])"
  by (simp add: ServeHTTP_def healthHandler_def writer_defs)

theorem health_always_ok_witness:
  "ServeHTTP (exampleEnv unreachable insertionSort) newResponseWriter
     \<lparr>Method = ''POST'', Path = ''/health'', Query = [''tag'' \<mapsto> [''dp'']]\<rparr>
     = Some (\<lparr>status = Some 200, written = ''ok''\<rparr>, [])"
  using health_always_ok[of "\<lparr>Method = ''POST'', Path = ''/health'', Query = [''tag'' \<mapsto> [''dp'']]\<rparr>"
      "exampleEnv unreachable insertionSort"]
  by simp

text \<open>
  C10. Whenever one of the four fetch operations succeeds, the upstream body decoded to
  some envelope, and every problem of the result is a problem of that envelope's list,
  equal to it in every field (the result holds no problem more often than the list
  does): sorting and filtering reorder and select, they change no field.
\<close>

theorem problems_never_modified:
  assumes "sortSliceContract (sort_Slice env)"
    and "url = CODEFORCES_BASE_URL @ PROBLEMSET_METHOD @ ''?tags='' @ tag
           \<and> (fetched = fst (fetchCodeforcesProblemSetWithTag env tag)
                \<or> fetched = fst (fetchCodeforcesProblemSetWithTagOnly env tag))
         \<or> url = CODEFORCES_BASE_URL @ PROBLEMSET_METHOD @ ''?tags='' @ joinedWith '';'' tags
           \<and> (fetched = fst (fetchCodeforcesProblemSetWithTags env tags)
                \<or> fetched = fst (fetchCodeforcesProblemSetWithTagsOnly env tags))"
    and "fetched = Inr result"
  shows "\<exists>response body decoded.
           http_Get env url = Inr response \<and> Body response = Inr body
           \<and> json_Unmarshal env body = Inr decoded
           \<and> set result \<subseteq> set (Problems (Result decoded))
           \<and> mset result \<subseteq># mset (Problems (Result decoded))"
proof -
  have "\<exists>response body decoded allProblems.
          http_Get env url = Inr response \<and> Body response = Inr body
          \<and> json_Unmarshal env body = Inr decoded
          \<and> allProblems = sort_Slice env (\<lambda>a b. Rating a < Rating b) (Problems (Result decoded))
          \<and> mset result \<subseteq># mset allProblems"
    using assms(2)
  proof (elim disjE conjE)
    assume "url = CODEFORCES_BASE_URL @ PROBLEMSET_METHOD @ ''?tags='' @ tag"
      and "fetched = fst (fetchCodeforcesProblemSetWithTag env tag)"
    with assms(3) fetchTag_Inr[of env tag result] show ?thesis by auto
  next
    assume u: "url = CODEFORCES_BASE_URL @ PROBLEMSET_METHOD @ ''?tags='' @ tag"
      and "fetched = fst (fetchCodeforcesProblemSetWithTagOnly env tag)"
    with assms(3) fetchTagOnly_Inr[of env tag result]
    obtain allProblems where a: "fst (fetchCodeforcesProblemSetWithTag env tag) = Inr allProblems"
      and r: "result = filter (\<lambda>p. length (Tags p) = 1) allProblems"
      by auto
    from fetchTag_Inr[OF a] u r show ?thesis by (auto simp: mset_filter_sub)
  next
    assume "url = CODEFORCES_BASE_URL @ PROBLEMSET_METHOD @ ''?tags='' @ joinedWith '';'' tags"
      and "fetched = fst (fetchCodeforcesProblemSetWithTags env tags)"
    with assms(3) fetchTags_Inr[of env tags result] show ?thesis by auto
  next
    assume u: "url = CODEFORCES_BASE_URL @ PROBLEMSET_METHOD @ ''?tags='' @ joinedWith '';'' tags"
      and "fetched = fst (fetchCodeforcesProblemSetWithTagsOnly env tags)"
    with assms(3) fetchTagsOnly_Inr[of env tags result]
    obtain allProblems where a: "fst (fetchCodeforcesProblemSetWithTags env tags) = Inr allProblems"
      and r: "result = filter (\<lambda>p. length (Tags p) = length tags) allProblems"
      by auto
    from fetchTags_Inr[OF a] u r show ?thesis by (auto simp: mset_filter_sub)
  qed
  then obtain response body decoded where g: "http_Get env url = Inr response"
    and b: "Body response = Inr body" and u: "json_Unmarshal env body = Inr decoded"
    and m: "mset result \<subseteq># mset (Problems (Result decoded))"
    using contract_byRating_mset[OF assms(1)] by auto
  from m have "set result \<subseteq> set (Problems (Result decoded))"
    using set_mset_mono by fastforce
  with g b u m show ?thesis by blast
qed

theorem problems_never_modified_witness:
  "fst (fetchCodeforcesProblemSetWithTagOnly
          (exampleEnv (answering 200 (bodyABC ''OK'')) insertionSort) ''dp'')
     = Inr [problemA, problemC]
   \<and> (\<exists>decoded.
         json_Unmarshal (exampleEnv (answering 200 (bodyABC ''OK'')) insertionSort) (bodyABC ''OK'')
           = Inr decoded
         \<and> set [problemA, problemC] \<subseteq> set (Problems (Result decoded)))"
proof -
  let ?env = "exampleEnv (answering 200 (bodyABC ''OK'')) insertionSort"
  let ?url = "CODEFORCES_BASE_URL @ PROBLEMSET_METHOD @ ''?tags='' @ ''dp''"
  have c: "sortSliceContract (sort_Slice ?env)"
    by (simp add: exampleEnv_def insertionSort_contract)
  have o: "fst (fetchCodeforcesProblemSetWithTagOnly ?env ''dp'') = Inr [problemA, problemC]"
    by (simp add: fetchTagOnly_fst fetchTag_fst example_defs)
  have g: "http_Get ?env ?url = Inr \<lparr>StatusCode = 200, Body = Inr (bodyABC ''OK'')\<rparr>"
    by (simp add: exampleEnv_def answering_def)
  have "\<exists>response body decoded.
           http_Get ?env ?url = Inr response \<and> Body response = Inr body
           \<and> json_Unmarshal ?env body = Inr decoded
           \<and> set [problemA, problemC] \<subseteq> set (Problems (Result decoded))
           \<and> mset [problemA, problemC] \<subseteq># mset (Problems (Result decoded))"
    using problems_never_modified[OF c _ o, where url = ?url and tag = "''dp''" and tags = "[]"]
    by simp
  with g o show ?thesis by auto
qed

end
